theory Spec2Isabelle
  imports Main
begin

section \<open>JavaScript values\<close>

text \<open>
  The credential, the identity documents and the result objects of \<^verbatim>\<open>verification.js\<close> are
  JavaScript values. An object is the association list of its own properties (the first
  binding of a name is the property's value). A number is identified by the text that
  JavaScript's number-to-string conversion gives it, so that \<open>0\<close> and \<open>-0\<close> are both
  \<open>JNum ''0''\<close> (JSON text has no NaN). \<open>JErr name message\<close> is an \<^verbatim>\<open>Error\<close> instance.
\<close>

datatype jv =
    JUndefined
  | JNull
  | JBool bool
  | JNum string
  | JStr string
  | JArr "jv list"
  | JObj "(string \<times> jv) list"
  | JErr string string

text \<open>
  What ends a call otherwise than with a value: a thrown \<^verbatim>\<open>Error\<close> instance with its
  \<^verbatim>\<open>name\<close> and \<^verbatim>\<open>message\<close>; a thrown value of another kind (JavaScript throws any value,
  \<^verbatim>\<open>null\<close> too); or nothing: a promise that the function awaits never settles, the call
  never returns, and no \<^verbatim>\<open>catch\<close> is entered.
\<close>

datatype js_error = JsError (err_name: string) (err_message: string) | Thrown jv | NeverSettles

text \<open>A value thrown by a library or given as the reason of a rejection.\<close>

definition thrown :: "jv \<Rightarrow> js_error" where
  "thrown v = (case v of JErr n m \<Rightarrow> JsError n m | _ \<Rightarrow> Thrown v)"

text \<open>\<^verbatim>\<open>!v\<close> is \<open>\<not> truthy v\<close>.\<close>

fun truthy :: "jv \<Rightarrow> bool" where
  "truthy JUndefined = False"
| "truthy JNull = False"
| "truthy (JBool b) = b"
| "truthy (JNum r) = (r \<noteq> ''0'')"
| "truthy (JStr s) = (s \<noteq> '''')"
| "truthy (JArr xs) = True"
| "truthy (JObj kvs) = True"
| "truthy (JErr n m) = True"

text \<open>
  Property read \<^verbatim>\<open>v.k\<close> (or \<^verbatim>\<open>v["k"]\<close>), for the property names the program reads
  (\<^verbatim>\<open>proof\<close>, \<^verbatim>\<open>type\<close>, \<^verbatim>\<open>verificationMethod\<close>, \<^verbatim>\<open>id\<close>, \<^verbatim>\<open>@id\<close>, the four collection
  names, \<^verbatim>\<open>name\<close> and \<^verbatim>\<open>message\<close>): none of them is a member of the prototype of a
  primitive, an array or a plain object. Reading a property of \<^verbatim>\<open>undefined\<close> or \<^verbatim>\<open>null\<close>
  throws a TypeError (the message is the one of V8).
\<close>

definition cannot_read :: "string \<Rightarrow> string \<Rightarrow> js_error" where
  "cannot_read what k =
     JsError ''TypeError'' (''Cannot read properties of '' @ what @ '' (reading '' @ [CHR 0x27] @ k @ [CHR 0x27] @ '')'')"

fun get_prop :: "jv \<Rightarrow> string \<Rightarrow> js_error + jv" where
  "get_prop JUndefined k = Inl (cannot_read ''undefined'' k)"
| "get_prop JNull k = Inl (cannot_read ''null'' k)"
| "get_prop (JObj kvs) k = Inr (case map_of kvs k of None \<Rightarrow> JUndefined | Some v \<Rightarrow> v)"
| "get_prop (JErr n m) k =
     Inr (if k = ''name'' then JStr n else if k = ''message'' then JStr m else JUndefined)"
| "get_prop (JBool b) k = Inr JUndefined"
| "get_prop (JNum r) k = Inr JUndefined"
| "get_prop (JStr s) k = Inr JUndefined"
| "get_prop (JArr xs) k = Inr JUndefined"

text \<open>
  String conversion in a template literal \<^verbatim>\<open>`${v}`\<close>. An array is joined with commas, its
  \<^verbatim>\<open>null\<close> and \<^verbatim>\<open>undefined\<close> elements giving the empty string. A plain object is converted
  by its \<^verbatim>\<open>toString\<close> member: the inherited one gives \<^verbatim>\<open>[object Object]\<close>; a member of its
  own called \<^verbatim>\<open>toString\<close> hides the inherited one, no value of this type is callable, the
  inherited \<^verbatim>\<open>valueOf\<close> gives the object back, and the conversion throws a TypeError.
\<close>

definition cannot_convert :: js_error where
  "cannot_convert = JsError ''TypeError'' ''Cannot convert object to primitive value''"

fun js_to_string :: "jv \<Rightarrow> js_error + string" and js_join :: "jv list \<Rightarrow> js_error + string" where
  "js_to_string JUndefined = Inr ''undefined''"
| "js_to_string JNull = Inr ''null''"
| "js_to_string (JBool b) = Inr (if b then ''true'' else ''false'')"
| "js_to_string (JNum r) = Inr r"
| "js_to_string (JStr s) = Inr s"
| "js_to_string (JArr xs) = js_join xs"
| "js_to_string (JObj kvs) =
     (if map_of kvs ''toString'' \<noteq> None then Inl cannot_convert else Inr ''[object Object]'')"
| "js_to_string (JErr n m) = Inr (if m = [] then n else if n = [] then m else n @ '': '' @ m)"
| "js_join [] = Inr []"
| "js_join (x # xs) =
     (case (case x of JUndefined \<Rightarrow> Inr [] | JNull \<Rightarrow> Inr [] | _ \<Rightarrow> js_to_string x) of
        Inl type_error \<Rightarrow> Inl type_error
      | Inr s \<Rightarrow>
          (case xs of
             [] \<Rightarrow> Inr s
           | _ \<Rightarrow> (case js_join xs of
                     Inl type_error \<Rightarrow> Inl type_error
                   | Inr rest \<Rightarrow> Inr (s @ '','' @ rest))))"

subsection \<open>String methods\<close>

definition startsWith :: "string \<Rightarrow> string \<Rightarrow> bool" where
  "startsWith s p = (take (length p) s = p)"

text \<open>\<^verbatim>\<open>s.includes(p)\<close>\<close>

fun str_includes :: "string \<Rightarrow> string \<Rightarrow> bool" where
  "str_includes [] p = (p = [])"
| "str_includes (c # cs) p = (startsWith (c # cs) p \<or> str_includes cs p)"

text \<open>\<^verbatim>\<open>s.replace(p, r)\<close> with a string pattern: the first occurrence only.\<close>

fun replace_first :: "string \<Rightarrow> string \<Rightarrow> string \<Rightarrow> string" where
  "replace_first p r [] = (if p = [] then r else [])"
| "replace_first p r (c # cs) =
     (if startsWith (c # cs) p then r @ drop (length p) (c # cs)
      else c # replace_first p r cs)"

text \<open>\<^verbatim>\<open>s.replace(/:/g, "/")\<close>\<close>

definition replace_colons :: "string \<Rightarrow> string" where
  "replace_colons s = map (\<lambda>c. if c = CHR '':'' then CHR ''/'' else c) s"

text \<open>\<^verbatim>\<open>s.split("#")\<close>: never the empty list.\<close>

fun split_hash :: "string \<Rightarrow> string list" where
  "split_hash [] = [[]]"
| "split_hash (c # cs) =
     (if c = CHR ''#'' then [] # split_hash cs
      else (case split_hash cs of [] \<Rightarrow> [[c]] | seg # segs \<Rightarrow> (c # seg) # segs))"

text \<open>
  \<^verbatim>\<open>`#${parts[1]}`\<close> for the parts of a split: the second part after the hash sign, and
  \<^verbatim>\<open>#undefined\<close> when there is no second part.
\<close>

definition hash_fragment :: "string list \<Rightarrow> string" where
  "hash_fragment parts = ''#'' @ (if 1 < length parts then parts ! 1 else ''undefined'')"

text \<open>
  \<^verbatim>\<open>error.message.includes(p)\<close> in a \<^verbatim>\<open>catch\<close>, \<open>var\<close> being the name of the caught
  variable. For an \<^verbatim>\<open>Error\<close> instance the message is a string. Another thrown value may
  have no \<^verbatim>\<open>message\<close>, or one that is an array (which has \<^verbatim>\<open>includes\<close> too) or that has no
  such method: the read or the call then throws a TypeError inside the handler.
\<close>

definition includes_of :: "string \<Rightarrow> jv \<Rightarrow> string \<Rightarrow> js_error + bool" where
  "includes_of var m p =
     (case m of
        JStr s \<Rightarrow> Inr (str_includes s p)
      | JArr xs \<Rightarrow> Inr (JStr p \<in> set xs)
      | JUndefined \<Rightarrow> Inl (cannot_read ''undefined'' ''includes'')
      | JNull \<Rightarrow> Inl (cannot_read ''null'' ''includes'')
      | _ \<Rightarrow> Inl (JsError ''TypeError'' (var @ ''.message.includes is not a function'')))"

definition message_includes :: "string \<Rightarrow> js_error \<Rightarrow> string \<Rightarrow> js_error + bool" where
  "message_includes var error p =
     (case error of
        JsError n m \<Rightarrow> Inr (str_includes m p)
      | Thrown v \<Rightarrow>
          (case get_prop v ''message'' of
             Inl type_error \<Rightarrow> Inl type_error
           | Inr m \<Rightarrow> includes_of var m p)
      | NeverSettles \<Rightarrow> Inl NeverSettles)"

section \<open>The world of one process\<close>

text \<open>
  A verification key made by \<^verbatim>\<open>new Ed25519VerificationKey2018(publicKey)\<close> and the options
  object given to \<^verbatim>\<open>new Ed25519Signature2018({key, verificationMethod})\<close>.
\<close>

datatype verification_key = VerificationKey jv

record suite =
  suite_key :: verification_key
  suite_verificationMethod :: jv

text \<open>
  What the program does to its surroundings, in order: a network request, a call of the
  progress callback, the two constructor calls of the signature libraries, and the time in
  milliseconds that the caller waited in the race between verification and timer.
\<close>

datatype event =
    Fetch string
  | Progress nat string
  | NewKey jv
  | NewSuite suite
  | Raced nat

text \<open>
  \<^verbatim>\<open>response.json()\<close> is fulfilled with the parsed body or rejected, after some
  milliseconds, or it never settles. \<^verbatim>\<open>fetch\<close> is fulfilled with a response, which has
  \<^verbatim>\<open>ok\<close>, \<^verbatim>\<open>statusText\<close> and a body, or rejected, after some milliseconds, or it never
  settles: the program sets no limit to the time of a request.
\<close>

datatype body = Parses nat jv | ParseFails nat jv | BodyNeverSettles

datatype response = Response (ok: bool) (statusText: string) (json: body)

datatype fetch_outcome = Responds nat response | Rejects nat jv | FetchNeverSettles

text \<open>
  The promise of \<^verbatim>\<open>jsigs.verify\<close>: it settles some milliseconds after the call, fulfilled
  with a value or rejected with a reason, or it never settles. A throw while the call is
  being built (the constructor of the proof purpose) is a rejection at time 0.
\<close>

datatype verify_unit = Settles nat "jv + jv" | Stalls

text \<open>
  The collaborators that are not code of this repository; they may do anything that their
  interface allows. The network may answer the same address differently at different
  times: \<open>fetch\<close> sees the events so far. A constructor returns or throws a value.
  \<^verbatim>\<open>jsigs.verify\<close> is handed the caller's credential object itself, not a copy:
  \<open>jsigs_verify\<close> gives its promise, and the credential object as the library has left it
  when the race is over. The calls of \<^verbatim>\<open>documentLoader\<close> that the library makes while the
  race is on are calls of \<^verbatim>\<open>loadUrlDocument\<close> of their own, which overlap one another and
  may end after the race; they are not events of the call of \<^verbatim>\<open>verifyCredentialSignature\<close>.
  Calls of the exported functions follow one another: a call starts in the world that the
  call before it has left.
\<close>

record externals =
  fetch :: "event list \<Rightarrow> string \<Rightarrow> fetch_outcome"
  key_throws :: "jv \<Rightarrow> jv option"
  suite_throws :: "suite \<Rightarrow> jv option"
  jsigs_verify :: "jv \<Rightarrow> suite \<Rightarrow> verify_unit \<times> jv"

text \<open>The triple that \<^verbatim>\<open>loadUrlDocument\<close> returns.\<close>

record resolved_document =
  contextUrl :: jv
  document :: jv
  documentUrl :: jv

text \<open>
  \<^verbatim>\<open>documentCache\<close>, a \<^verbatim>\<open>Map\<close> private to the module, the events so far, and the time in
  milliseconds since the process started.
\<close>

record world =
  documentCache :: "string \<rightharpoonup> resolved_document"
  trace :: "event list"
  clock :: nat

definition emit :: "event \<Rightarrow> world \<Rightarrow> world" where
  "emit e w = w\<lparr>trace := trace w @ [e]\<rparr>"

definition cache_set :: "string \<Rightarrow> resolved_document \<Rightarrow> world \<Rightarrow> world" where
  "cache_set url result w = w\<lparr>documentCache := (documentCache w)(url \<mapsto> result)\<rparr>"

text \<open>Waiting \<open>d\<close> milliseconds for a promise.\<close>

definition wait :: "nat \<Rightarrow> world \<Rightarrow> world" where
  "wait d w = w\<lparr>clock := clock w + d\<rparr>"

text \<open>
  \<^verbatim>\<open>if (progressCallback) progressCallback(step, message)\<close>: the callback is the caller's; it
  is taken to return normally, and its calls are recorded.
\<close>

definition notify :: "bool \<Rightarrow> nat \<Rightarrow> string \<Rightarrow> world \<Rightarrow> world" where
  "notify progressCallback step msg w = (if progressCallback then emit (Progress step msg) w else w)"

text \<open>
  The same with a message that is a template literal: the text is made, and may throw,
  only when there is a callback.
\<close>

definition notify_template ::
  "bool \<Rightarrow> nat \<Rightarrow> string \<Rightarrow> jv \<Rightarrow> world \<Rightarrow> js_error + world" where
  "notify_template progressCallback step before v w =
     (if progressCallback then
        (case js_to_string v of
           Inl type_error \<Rightarrow> Inl type_error
         | Inr text \<Rightarrow> Inr (emit (Progress step (before @ text)) w))
      else Inr w)"

definition START :: nat where "START = 10"
definition CHECK_PROOF :: nat where "CHECK_PROOF = 25"
definition RESOLVE_DID :: nat where "RESOLVE_DID = 50"
definition CREATE_KEY :: nat where "CREATE_KEY = 65"
definition SETUP_SUITE :: nat where "SETUP_SUITE = 80"
definition VERIFY :: nat where "VERIFY = 100"

section \<open>Context store\<close>

text \<open>The three inlined contexts of \<^verbatim>\<open>CONTEXTS\<close>.\<close>

definition W3C_CREDENTIALS_V1 :: jv where
  "W3C_CREDENTIALS_V1 = JObj
    [(''@version'', JNum ''1.1''),
     (''id'', JStr ''@id''),
     (''type'', JStr ''@type''),
     (''VerifiableCredential'', JObj
       [(''@id'', JStr ''https://www.w3.org/2018/credentials#VerifiableCredential''),
        (''@context'', JObj
          [(''@version'', JNum ''1.1''),
           (''id'', JStr ''@id''),
           (''type'', JStr ''@type''),
           (''credentialSubject'', JObj
             [(''@id'', JStr ''https://www.w3.org/2018/credentials#credentialSubject'')]),
           (''issuer'', JObj
             [(''@id'', JStr ''https://www.w3.org/2018/credentials#issuer'')]),
           (''issuanceDate'', JObj
             [(''@id'', JStr ''https://www.w3.org/2018/credentials#issuanceDate''),
              (''@type'', JStr ''http://www.w3.org/2001/XMLSchema#dateTime'')]),
           (''proof'', JObj
             [(''@id'', JStr ''https://w3id.org/security#proof''),
              (''@container'', JStr ''@graph'')])])])]"

definition W3C_SECURITY :: jv where
  "W3C_SECURITY = JObj
    [(''id'', JStr ''@id''),
     (''type'', JStr ''@type''),
     (''dc'', JStr ''http://purl.org/dc/terms/''),
     (''sec'', JStr ''https://w3id.org/security#''),
     (''xsd'', JStr ''http://www.w3.org/2001/XMLSchema#''),
     (''Ed25519Signature2018'', JStr ''sec:Ed25519Signature2018''),
     (''Ed25519VerificationKey2018'', JStr ''sec:Ed25519VerificationKey2018''),
     (''assertionMethod'', JObj
       [(''@id'', JStr ''sec:assertionMethod''), (''@type'', JStr ''@id''),
        (''@container'', JStr ''@set'')]),
     (''authentication'', JObj
       [(''@id'', JStr ''sec:authentication''), (''@type'', JStr ''@id''),
        (''@container'', JStr ''@set'')]),
     (''created'', JObj [(''@id'', JStr ''dc:created''), (''@type'', JStr ''xsd:dateTime'')]),
     (''creator'', JObj [(''@id'', JStr ''dc:creator''), (''@type'', JStr ''@id'')]),
     (''domain'', JStr ''sec:domain''),
     (''expires'', JObj [(''@id'', JStr ''sec:expiration''), (''@type'', JStr ''xsd:dateTime'')]),
     (''jws'', JStr ''sec:jws''),
     (''nonce'', JStr ''sec:nonce''),
     (''proof'', JObj
       [(''@id'', JStr ''sec:proof''), (''@type'', JStr ''@id''),
        (''@container'', JStr ''@graph'')]),
     (''proofPurpose'', JObj [(''@id'', JStr ''sec:proofPurpose''), (''@type'', JStr ''@vocab'')]),
     (''proofValue'', JStr ''sec:proofValue''),
     (''publicKey'', JObj [(''@id'', JStr ''sec:publicKey''), (''@type'', JStr ''@id'')]),
     (''publicKeyBase58'', JStr ''sec:publicKeyBase58''),
     (''publicKeyPem'', JStr ''sec:publicKeyPem''),
     (''challenge'', JStr ''sec:challenge''),
     (''controller'', JObj [(''@id'', JStr ''sec:controller''), (''@type'', JStr ''@id'')]),
     (''verificationMethod'', JObj
       [(''@id'', JStr ''sec:verificationMethod''), (''@type'', JStr ''@id'')])]"

definition FALLBACK :: jv where
  "FALLBACK = JObj [(''@vocab'', JStr ''https://example.org/undefined#'')]"

section \<open>Document loader\<close>

text \<open>
  \<^verbatim>\<open>await fetch(target)\<close>, the test of \<^verbatim>\<open>response.ok\<close> and \<^verbatim>\<open>await response.json()\<close>, as
  both fetching branches of \<^verbatim>\<open>loadUrlDocument\<close> do them; \<open>failed\<close> is the beginning of the
  message of the error thrown for a response that is not ok. The time that the two awaits
  take passes on the clock.
\<close>

definition fetch_json :: "externals \<Rightarrow> string \<Rightarrow> string \<Rightarrow> world \<Rightarrow> (js_error + jv) \<times> world" where
  "fetch_json ext failed target w =
     (case fetch ext (trace w) target of
        FetchNeverSettles \<Rightarrow> (Inl NeverSettles, emit (Fetch target) w)
      | Rejects d reason \<Rightarrow> (Inl (thrown reason), wait d (emit (Fetch target) w))
      | Responds d resp \<Rightarrow>
          if \<not> ok resp then
            (Inl (JsError ''Error'' (failed @ statusText resp)), wait d (emit (Fetch target) w))
          else
            (case json resp of
               BodyNeverSettles \<Rightarrow> (Inl NeverSettles, wait d (emit (Fetch target) w))
             | ParseFails d' reason \<Rightarrow>
                 (Inl (thrown reason), wait (d + d') (emit (Fetch target) w))
             | Parses d' doc \<Rightarrow> (Inr doc, wait (d + d') (emit (Fetch target) w))))"

text \<open>The condition of the first branch: a URN, or a DID that is not a \<^verbatim>\<open>did:web\<close> one.\<close>

definition urn_or_non_web_did :: "string \<Rightarrow> bool" where
  "urn_or_non_web_did url =
     (startsWith url ''urn:'' \<or> (startsWith url ''did:'' \<and> \<not> startsWith url ''did:web:''))"

text \<open>
  \<^verbatim>\<open>loadUrlDocument(url)\<close>. The two \<^verbatim>\<open>try\<close> blocks are the two \<open>case\<close>s on the outcome of
  \<open>fetch_json\<close>: nothing else in them can throw. A request that never settles leaves the
  call waiting: no \<^verbatim>\<open>catch\<close> is entered and nothing is written into the cache.
\<close>

definition loadUrlDocument :: "externals \<Rightarrow> jv \<Rightarrow> world \<Rightarrow> (js_error + resolved_document) \<times> world" where
  "loadUrlDocument ext url w =
     (case url of
        JStr u \<Rightarrow>
          (case documentCache w u of
             Some cached \<Rightarrow> (Inr cached, w)
           | None \<Rightarrow>
               if urn_or_non_web_did u then
                 (let result = \<lparr>contextUrl = JNull, document = JObj [(''@id'', JStr u)],
                                documentUrl = JStr u\<rparr>
                  in (Inr result, cache_set u result w))
               else if startsWith u ''did:web:'' then
                 (let didParts = replace_first ''did:web:'' [] u;
                      httpsUrl = ''https://'' @ replace_colons didParts @ ''/did.json''
                  in case fetch_json ext ''Failed to load DID document: '' httpsUrl w of
                       (Inr doc, w1) \<Rightarrow>
                         (let result = \<lparr>contextUrl = JNull, document = doc, documentUrl = JStr u\<rparr>
                          in (Inr result, cache_set u result w1))
                     | (Inl error, w1) \<Rightarrow>
                         if error = NeverSettles then (Inl NeverSettles, w1)
                         else
                           (let result = \<lparr>contextUrl = JNull, document = JObj [(''@id'', JStr u)],
                                          documentUrl = JStr u\<rparr>
                            in (Inr result, cache_set u result w1)))
               else
                 (case fetch_json ext ''Failed to load document: '' u w of
                    (Inr doc, w1) \<Rightarrow>
                      (let result = \<lparr>contextUrl = JNull, document = doc, documentUrl = JStr u\<rparr>
                       in (Inr result, cache_set u result w1))
                  | (Inl error, w1) \<Rightarrow>
                      if error = NeverSettles then (Inl NeverSettles, w1)
                      else if u = ''https://www.w3.org/2018/credentials/v1'' then
                        (let result = \<lparr>contextUrl = JNull,
                                       document = JObj [(''@context'', W3C_CREDENTIALS_V1)],
                                       documentUrl = JStr u\<rparr>
                         in (Inr result, cache_set u result w1))
                      else if u = ''https://w3id.org/security/v2'' \<or> u = ''https://w3id.org/security/v1'' then
                        (let result = \<lparr>contextUrl = JNull,
                                       document = JObj [(''@context'', W3C_SECURITY)],
                                       documentUrl = JStr u\<rparr>
                         in (Inr result, cache_set u result w1))
                      else
                        (let result = \<lparr>contextUrl = JNull,
                                       document = JObj [(''@context'', FALLBACK)],
                                       documentUrl = JStr u\<rparr>
                         in (Inr result, cache_set u result w1))))
      | _ \<Rightarrow>
          (case get_prop url ''id'' of
             Inl type_error \<Rightarrow> (Inl type_error, w)
           | Inr i \<Rightarrow>
               (Inr \<lparr>contextUrl = JNull, document = url,
                     documentUrl = (if truthy i then i else JStr [])\<rparr>, w)))"

section \<open>Identity resolver\<close>

text \<open>
  \<^verbatim>\<open>array.find(method => method.id === verificationMethod || method.id === `#${fragment}`)\<close>:
  the first entry that matches, \<^verbatim>\<open>undefined\<close> when there is none; reading \<^verbatim>\<open>id\<close> of an
  entry that is \<^verbatim>\<open>null\<close> throws. \<open>rel\<close> is the string \<^verbatim>\<open>`#${verificationMethod.split("#")[1]}`\<close>.
\<close>

fun array_find :: "string \<Rightarrow> string \<Rightarrow> jv list \<Rightarrow> js_error + jv" where
  "array_find vm rel [] = Inr JUndefined"
| "array_find vm rel (method # methods) =
     (case get_prop method ''id'' of
        Inl type_error \<Rightarrow> Inl type_error
      | Inr i \<Rightarrow> if i = JStr vm \<or> i = JStr rel then Inr method else array_find vm rel methods)"

text \<open>
  The loop over \<^verbatim>\<open>possibleArrays\<close>, which starts with \<^verbatim>\<open>publicKey = null\<close> and stops at the
  first collection where \<^verbatim>\<open>find\<close> gives a truthy entry.
\<close>

fun find_in_possibleArrays :: "string \<Rightarrow> string \<Rightarrow> jv list \<Rightarrow> js_error + jv" where
  "find_in_possibleArrays vm rel [] = Inr JNull"
| "find_in_possibleArrays vm rel (array # arrays) =
     (case array of
        JArr methods \<Rightarrow>
          (case array_find vm rel methods of
             Inl type_error \<Rightarrow> Inl type_error
           | Inr key \<Rightarrow> if truthy key then Inr key else find_in_possibleArrays vm rel arrays)
      | _ \<Rightarrow> find_in_possibleArrays vm rel arrays)"

text \<open>
  The four reads that fill \<^verbatim>\<open>possibleArrays\<close>; the document is truthy where they are made,
  and a read that throws ends the block.
\<close>

fun get_props :: "jv \<Rightarrow> string list \<Rightarrow> js_error + jv list" where
  "get_props v [] = Inr []"
| "get_props v (k # ks) =
     (case get_prop v k of
        Inl type_error \<Rightarrow> Inl type_error
      | Inr x \<Rightarrow> (case get_props v ks of Inl type_error \<Rightarrow> Inl type_error | Inr xs \<Rightarrow> Inr (x # xs)))"

text \<open>
  The \<^verbatim>\<open>try\<close> block of \<^verbatim>\<open>getPublicKeyFromDID\<close>. Only a string has the method \<^verbatim>\<open>split\<close>;
  the first part of a split exists always.
\<close>

definition getPublicKeyFromDID_try ::
  "externals \<Rightarrow> jv \<Rightarrow> bool \<Rightarrow> world \<Rightarrow> (js_error + jv) \<times> world" where
  "getPublicKeyFromDID_try ext verificationMethod progressCallback w =
     (case notify_template progressCallback RESOLVE_DID ''Resolving verification method: ''
             verificationMethod w of
        Inl type_error \<Rightarrow> (Inl type_error, w)
      | Inr w1 \<Rightarrow>
          (case verificationMethod of
             JStr vm \<Rightarrow>
               (let parts = split_hash vm;
                    did = hd parts
                in case loadUrlDocument ext (JStr did) w1 of
                     (Inl e, w2) \<Rightarrow> (Inl e, w2)
                   | (Inr response, w2) \<Rightarrow>
                       (let didDocument = document response
                        in if \<not> truthy didDocument
                              \<or> get_prop didDocument ''@id'' = Inr (JStr did) then
                             (Inl (JsError ''Error'' ''Failed to fetch DID document''), w2)
                           else
                             (case get_props didDocument
                                     [''verificationMethod'', ''authentication'',
                                      ''assertionMethod'', ''publicKey''] of
                                Inl type_error \<Rightarrow> (Inl type_error, w2)
                              | Inr possibleArrays \<Rightarrow>
                                  (case find_in_possibleArrays vm (hash_fragment parts)
                                          possibleArrays of
                                     Inl type_error \<Rightarrow> (Inl type_error, w2)
                                   | Inr publicKey \<Rightarrow>
                                       if \<not> truthy publicKey then
                                         (Inl (JsError ''Error''
                                                (''Verification method '' @ vm
                                                 @ '' not found in DID document'')), w2)
                                       else (Inr publicKey, w2)))))
           | JUndefined \<Rightarrow> (Inl (cannot_read ''undefined'' ''split''), w1)
           | JNull \<Rightarrow> (Inl (cannot_read ''null'' ''split''), w1)
           | _ \<Rightarrow> (Inl (JsError ''TypeError'' ''verificationMethod.split is not a function''), w1)))"

text \<open>
  \<^verbatim>\<open>getPublicKeyFromDID(verificationMethod, progressCallback)\<close>: the \<^verbatim>\<open>catch\<close> turns an error
  whose message includes \<^verbatim>\<open>Failed to fetch\<close> into \<^verbatim>\<open>null\<close> and throws every other one again;
  what the test of the message throws leaves the function.
\<close>

definition getPublicKeyFromDID ::
  "externals \<Rightarrow> jv \<Rightarrow> bool \<Rightarrow> world \<Rightarrow> (js_error + jv) \<times> world" where
  "getPublicKeyFromDID ext verificationMethod progressCallback w =
     (case getPublicKeyFromDID_try ext verificationMethod progressCallback w of
        (Inr publicKey, w') \<Rightarrow> (Inr publicKey, w')
      | (Inl error, w') \<Rightarrow>
          (case message_includes ''error'' error ''Failed to fetch'' of
             Inl in_handler \<Rightarrow> (Inl in_handler, w')
           | Inr fetch_failed \<Rightarrow> if fetch_failed then (Inr JNull, w') else (Inl error, w')))"

section \<open>Verification orchestrator\<close>

text \<open>The result objects that \<^verbatim>\<open>verifyCredentialSignature\<close> builds itself.\<close>

definition missing_proof_result :: jv where
  "missing_proof_result =
     JObj [(''verified'', JBool False),
           (''error'', JStr ''Invalid credential structure: missing proof'')]"

text \<open>The argument is the text that the template literal has made of \<^verbatim>\<open>proof.type\<close>.\<close>

definition unsupported_type_result :: "string \<Rightarrow> jv" where
  "unsupported_type_result type_text =
     JObj [(''verified'', JBool False),
           (''error'', JStr (''Unsupported proof type: '' @ type_text
                            @ ''. Only Ed25519Signature2018 is supported.''))]"

definition cors_result :: jv where
  "cors_result =
     JObj [(''verified'', JBool False),
           (''error'', JStr ''Could not resolve verification method''),
           (''errors'', JArr [JStr ''CORS''])]"

definition timeout_result :: jv where
  "timeout_result =
     JObj [(''verified'', JBool False),
           (''error'', JStr (''Verification timed out. This may be due to network issues ''
                            @ ''or complex credential processing.'')),
           (''errorType'', JStr ''TIMEOUT'')]"

text \<open>The argument is \<^verbatim>\<open>error.message\<close>.\<close>

definition safe_mode_result :: "jv \<Rightarrow> jv" where
  "safe_mode_result message =
     JObj [(''verified'', JBool False),
           (''error'', JStr (''JSON-LD safe mode validation error. This typically occurs when ''
                            @ ''the credential contains certain URL patterns that trigger browser ''
                            @ ''security restrictions. In a production environment, this ''
                            @ ''verification would be performed server-side.'')),
           (''errorType'', JStr ''SAFE_MODE''),
           (''originalError'', message)]"

text \<open>\<^verbatim>\<open>{ verified: false, error: error.message || error }\<close>\<close>

definition generic_result :: "jv \<Rightarrow> jv \<Rightarrow> jv" where
  "generic_result message error =
     JObj [(''verified'', JBool False),
           (''error'', (if truthy message then message else error))]"

text \<open>
  The \<^verbatim>\<open>catch (error)\<close> of \<^verbatim>\<open>verifyCredentialSignature\<close>: it returns a result, unless
  reading \<^verbatim>\<open>error.name\<close> or calling \<^verbatim>\<open>error.message.includes\<close> throws, which then leaves
  the function. The caught value is the thrown one, an \<^verbatim>\<open>Error\<close> instance or not.
\<close>

definition caught_value :: "js_error \<Rightarrow> jv" where
  "caught_value error =
     (case error of JsError n m \<Rightarrow> JErr n m | Thrown v \<Rightarrow> v | NeverSettles \<Rightarrow> JUndefined)"

definition catch_error :: "js_error \<Rightarrow> js_error + jv" where
  "catch_error error =
     (if error = NeverSettles then Inl NeverSettles
      else case get_prop (caught_value error) ''name'' of
        Inl type_error \<Rightarrow> Inl type_error
      | Inr error_name \<Rightarrow>
          (case (if error_name = JStr ''jsonld.ValidationError''
                 then message_includes ''error'' error ''Safe mode'' else Inr False) of
             Inl type_error \<Rightarrow> Inl type_error
           | Inr safe_mode \<Rightarrow>
               (case get_prop (caught_value error) ''message'' of
                  Inl type_error \<Rightarrow> Inl type_error
                | Inr message \<Rightarrow>
                    if safe_mode then Inr (safe_mode_result message)
                    else Inr (generic_result message (caught_value error)))))"

text \<open>
  \<^verbatim>\<open>Promise.race([jsigs.verify(...), timeoutPromise])\<close>: the timer rejects 10000 milliseconds
  after the race starts; the verification wins when it settles before that. The second
  component is the time the race took.
\<close>

definition timeout_error :: js_error where
  "timeout_error = JsError ''Error'' ''Verification timeout after 10 seconds''"

definition race :: "verify_unit \<Rightarrow> (js_error + jv) \<times> nat" where
  "race unit =
     (case unit of
        Settles t outcome \<Rightarrow>
          if t < 10000 then
            ((case outcome of Inl reason \<Rightarrow> Inl (thrown reason) | Inr v \<Rightarrow> Inr v), t)
          else (Inl timeout_error, 10000)
      | Stalls \<Rightarrow> (Inl timeout_error, 10000))"

text \<open>
  The inner \<^verbatim>\<open>try\<close> block with its \<^verbatim>\<open>catch (verifyError)\<close>. The timer is made here, after
  the key has been resolved. The second component is the credential object when the race is
  over.
\<close>

definition verify_with_timeout ::
  "externals \<Rightarrow> jv \<Rightarrow> suite \<Rightarrow> world \<Rightarrow> (js_error + jv) \<times> jv \<times> world" where
  "verify_with_timeout ext credential s w =
     (case jsigs_verify ext credential s of
        (unit, credential_left) \<Rightarrow>
          (case race unit of
             (settled, waited) \<Rightarrow>
               (let w' = wait waited (emit (Raced waited) w)
                in case settled of
                     Inr result \<Rightarrow> (Inr result, credential_left, w')
                   | Inl verifyError \<Rightarrow>
                       (case message_includes ''verifyError'' verifyError ''timeout'' of
                          Inl in_handler \<Rightarrow> (Inl in_handler, credential_left, w')
                        | Inr timed_out \<Rightarrow>
                            if timed_out then (Inr timeout_result, credential_left, w')
                            else (Inl verifyError, credential_left, w')))))"

text \<open>
  The outer \<^verbatim>\<open>try\<close> block of \<^verbatim>\<open>verifyCredentialSignature\<close>. JavaScript hands the
  credential over by reference; the second component is the caller's object as the block
  leaves it. No statement of the block assigns to the object or to a part of it, and the
  block hands the object itself, not a copy, to \<^verbatim>\<open>jsigs.verify\<close>.
\<close>

definition verifyCredentialSignature_try ::
  "externals \<Rightarrow> jv \<Rightarrow> bool \<Rightarrow> world \<Rightarrow> (js_error + jv) \<times> jv \<times> world" where
  "verifyCredentialSignature_try ext credential progressCallback w =
     (if \<not> truthy credential then (Inr missing_proof_result, credential, w)
      else case get_prop credential ''proof'' of
        Inl type_error \<Rightarrow> (Inl type_error, credential, w)
      | Inr proof_block \<Rightarrow>
          if \<not> truthy proof_block then (Inr missing_proof_result, credential, w)
          else
            (let w1 = notify progressCallback START ''Starting verification'' w
             in case get_prop proof_block ''type'' of
               Inl type_error \<Rightarrow> (Inl type_error, credential, w1)
             | Inr proof_type \<Rightarrow>
                 if proof_type \<noteq> JStr ''Ed25519Signature2018'' then
                   (case js_to_string proof_type of
                      Inl type_error \<Rightarrow> (Inl type_error, credential, w1)
                    | Inr type_text \<Rightarrow> (Inr (unsupported_type_result type_text), credential, w1))
                 else
                   (case notify_template progressCallback CHECK_PROOF
                           ''Checking proof format: '' proof_type w1 of
                      Inl type_error \<Rightarrow> (Inl type_error, credential, w1)
                    | Inr w2 \<Rightarrow>
                   (case get_prop proof_block ''verificationMethod'' of
                      Inl type_error \<Rightarrow> (Inl type_error, credential, w2)
                    | Inr vm \<Rightarrow>
                        (case getPublicKeyFromDID ext vm progressCallback w2 of
                           (Inl e, w3) \<Rightarrow> (Inl e, credential, w3)
                         | (Inr publicKey, w3) \<Rightarrow>
                             if \<not> truthy publicKey then (Inr cors_result, credential, w3)
                             else
                               (let w4 = emit (NewKey publicKey)
                                           (notify progressCallback CREATE_KEY
                                              ''Creating verification key'' w3)
                                in case key_throws ext publicKey of
                                  Some e \<Rightarrow> (Inl (thrown e), credential, w4)
                                | None \<Rightarrow>
                                    (let verificationKey = VerificationKey publicKey;
                                         w5 = notify progressCallback SETUP_SUITE
                                                ''Setting up verification suite'' w4
                                     in case get_prop publicKey ''id'' of
                                       Inl type_error \<Rightarrow> (Inl type_error, credential, w5)
                                     | Inr publicKey_id \<Rightarrow>
                                         (let s = \<lparr>suite_key = verificationKey,
                                                   suite_verificationMethod = publicKey_id\<rparr>;
                                              w6 = emit (NewSuite s) w5
                                          in case suite_throws ext s of
                                            Some e \<Rightarrow> (Inl (thrown e), credential, w6)
                                          | None \<Rightarrow>
                                              verify_with_timeout ext credential s
                                                (notify progressCallback VERIFY
                                                   ''Verifying signature'' w6)))))))))"

text \<open>
  \<^verbatim>\<open>verifyCredentialSignature(credential, progressCallback)\<close> with its \<^verbatim>\<open>catch (error)\<close>.
  The components are the outcome, the caller's credential object when the call is over,
  and the world. The outcome \<open>Inl NeverSettles\<close> is a call that stays pending.
\<close>

definition verifyCredentialSignature ::
  "externals \<Rightarrow> jv \<Rightarrow> bool \<Rightarrow> world \<Rightarrow> (js_error + jv) \<times> jv \<times> world" where
  "verifyCredentialSignature ext credential progressCallback w =
     (case verifyCredentialSignature_try ext credential progressCallback w of
        (Inr result, credential_left, w') \<Rightarrow> (Inr result, credential_left, w')
      | (Inl error, credential_left, w') \<Rightarrow> (catch_error error, credential_left, w'))"

section \<open>Observations\<close>

text \<open>
  What can be seen of a run in the events: the addresses requested from the network, the
  suites constructed, and the times waited in a race, each in order.
\<close>

definition requests :: "world \<Rightarrow> string list" where
  "requests w = concat (map (\<lambda>e. case e of Fetch u \<Rightarrow> [u] | _ \<Rightarrow> []) (trace w))"

definition suites :: "world \<Rightarrow> suite list" where
  "suites w = concat (map (\<lambda>e. case e of NewSuite s \<Rightarrow> [s] | _ \<Rightarrow> []) (trace w))"

definition races :: "world \<Rightarrow> nat list" where
  "races w = concat (map (\<lambda>e. case e of Raced t \<Rightarrow> [t] | _ \<Rightarrow> []) (trace w))"



text \<open>
  Every request of the network is answered or refused at some time, and so is the reading
  of the body of an answer that is ok.
\<close>

definition network_settles :: "externals \<Rightarrow> bool" where
  "network_settles ext =
     (\<forall>past target. fetch ext past target \<noteq> FetchNeverSettles
        \<and> (\<forall>d resp. fetch ext past target = Responds d resp \<longrightarrow> ok resp \<longrightarrow>
              json resp \<noteq> BodyNeverSettles))"



text \<open>
  The process at its start: \<^verbatim>\<open>documentCache = new Map()\<close>, nothing has happened, and
  the clock is at 0.
\<close>

definition initial_world :: world where
  "initial_world = \<lparr>documentCache = Map.empty, trace = [], clock = 0\<rparr>"

text \<open>
  \<^verbatim>\<open>documentCache\<close> is not exported: the worlds a process can be in are those that the three
  exported functions make of the initial one.
\<close>

inductive reachable :: "externals \<Rightarrow> world \<Rightarrow> bool" for ext :: externals where
  start: "reachable ext initial_world"
| load: "reachable ext w \<Longrightarrow> reachable ext (snd (loadUrlDocument ext url w))"
| resolve: "reachable ext w \<Longrightarrow> reachable ext (snd (getPublicKeyFromDID ext vm cb w))"
| verify: "reachable ext w \<Longrightarrow>
     reachable ext (snd (snd (verifyCredentialSignature ext credential cb w)))"

text \<open>
  An invariant of the cache: the entry of a URN or of a DID that is not a \<^verbatim>\<open>did:web\<close> one is
  the placeholder.
\<close>

definition loader_cache :: "world \<Rightarrow> bool" where
  "loader_cache w =
     (\<forall>u r. documentCache w u = Some r \<longrightarrow> urn_or_non_web_did u \<longrightarrow>
        r = \<lparr>contextUrl = JNull, document = JObj [(''@id'', JStr u)], documentUrl = JStr u\<rparr>)"

subsection \<open>The resolver in the words of its description\<close>

text \<open>
  The guard of \<^verbatim>\<open>getPublicKeyFromDID\<close> on the loaded document,
  \<^verbatim>\<open>!didDocument || didDocument["@id"] === did\<close>, and the error it throws when no entry
  matches.
\<close>

definition taken_as_unreachable :: "string \<Rightarrow> jv \<Rightarrow> bool" where
  "taken_as_unreachable did d = (\<not> truthy d \<or> get_prop d ''@id'' = Inr (JStr did))"

definition not_found :: "string \<Rightarrow> js_error" where
  "not_found vm = JsError ''Error'' (''Verification method '' @ vm @ '' not found in DID document'')"

text \<open>
  An entry matches the identifier by its full text or by its fragment, written
  \<^verbatim>\<open>`#${verificationMethod.split("#")[1]}`\<close>.
\<close>

definition relative_id :: "string \<Rightarrow> string" where
  "relative_id vm = hash_fragment (split_hash vm)"

definition matches :: "string \<Rightarrow> jv \<Rightarrow> bool" where
  "matches vm method =
     (get_prop method ''id'' = Inr (JStr vm) \<or> get_prop method ''id'' = Inr (JStr (relative_id vm)))"

text \<open>
  The entries of the four key-bearing collections of a document, in the fixed order; a
  member that is not an array has none. The first match in that order.
\<close>

definition elems :: "jv \<Rightarrow> jv list" where
  "elems a = (case a of JArr xs \<Rightarrow> xs | _ \<Rightarrow> [])"

definition collection :: "jv \<Rightarrow> string \<Rightarrow> jv list" where
  "collection d k = (case get_prop d k of Inr a \<Rightarrow> elems a | Inl e \<Rightarrow> [])"

definition spec_entries :: "jv \<Rightarrow> jv list" where
  "spec_entries d =
     concat (map (collection d)
       [''verificationMethod'', ''authentication'', ''assertionMethod'', ''publicKey''])"

definition spec_first_match :: "string \<Rightarrow> jv \<Rightarrow> jv option" where
  "spec_first_match vm d = List.find (matches vm) (spec_entries d)"

subsection \<open>Surroundings and documents for the examples\<close>

text \<open>
  A network that answers the addresses of a table with the table's document and rejects
  every other request, as a browser does (\<^verbatim>\<open>TypeError: Failed to fetch\<close>), each after
  \<open>latency\<close> milliseconds.
\<close>

definition served :: "nat \<Rightarrow> (string \<times> jv) list \<Rightarrow> event list \<Rightarrow> string \<Rightarrow> fetch_outcome" where
  "served latency table past target =
     (case map_of table target of
        None \<Rightarrow> Rejects latency (JErr ''TypeError'' ''Failed to fetch'')
      | Some doc \<Rightarrow> Responds latency (Response True ''OK'' (Parses 0 doc)))"

text \<open>
  Surroundings with such a network that answers at once, constructors that accept every
  key record, and a verification that behaves as \<open>unit\<close> and leaves the credential as it
  is.
\<close>

definition stub :: "(string \<times> jv) list \<Rightarrow> verify_unit \<Rightarrow> externals" where
  "stub table unit =
     \<lparr>fetch = served 0 table,
      key_throws = (\<lambda>publicKey. None),
      suite_throws = (\<lambda>s. None),
      jsigs_verify = (\<lambda>credential s. (unit, credential))\<rparr>"

definition example_key :: "string \<Rightarrow> string \<Rightarrow> jv" where
  "example_key i material =
     JObj [(''id'', JStr i), (''type'', JStr ''Ed25519VerificationKey2018''),
           (''controller'', JStr ''did:web:example.com''), (''publicKeyBase58'', JStr material)]"

text \<open>
  The document of \<^verbatim>\<open>did:web:example.com\<close>: the fragment \<^verbatim>\<open>#key-1\<close> is in
  \<^verbatim>\<open>verificationMethod\<close> and in \<^verbatim>\<open>authentication\<close>, with different key material.
\<close>

definition example_document :: jv where
  "example_document =
     JObj [(''id'', JStr ''did:web:example.com''),
           (''verificationMethod'', JArr [example_key ''#key-1'' ''AAAA'']),
           (''authentication'', JArr [example_key ''#key-1'' ''BBBB''])]"

definition example_credential :: jv where
  "example_credential =
     JObj [(''id'', JStr ''urn:uuid:1''),
           (''issuer'', JStr ''did:web:example.com''),
           (''proof'', JObj [(''type'', JStr ''Ed25519Signature2018''),
                            (''verificationMethod'', JStr ''did:web:example.com#key-1'')])]"

definition example_net :: "verify_unit \<Rightarrow> externals" where
  "example_net unit = stub [(''https://example.com/did.json'', example_document)] unit"

text \<open>
  Three other documents that a server may publish for \<^verbatim>\<open>did:web:example.com\<close>: one whose
  only member is \<^verbatim>\<open>id\<close>, and two that name themselves with the JSON-LD keyword \<^verbatim>\<open>@id\<close>.
\<close>

definition only_id_document :: jv where
  "only_id_document = JObj [(''id'', JStr ''did:web:example.com'')]"

definition jsonld_document :: jv where
  "jsonld_document =
     JObj [(''@id'', JStr ''did:web:example.com''),
           (''verificationMethod'', JArr [example_key ''did:web:example.com#key-1'' ''AAAA''])]"

definition jsonld_two_collections :: jv where
  "jsonld_two_collections =
     JObj [(''@context'', JStr ''https://www.w3.org/ns/did/v1''),
           (''@id'', JStr ''did:web:example.com''),
           (''verificationMethod'', JArr [example_key ''#key-1'' ''AAAA'']),
           (''authentication'', JArr [example_key ''#key-1'' ''BBBB''])]"



definition slow_net :: externals where
  "slow_net =
     (example_net Stalls)\<lparr>fetch := served 5000 [(''https://example.com/did.json'', example_document)]\<rparr>"



section \<open>Basic facts\<close>

lemma trace_emit [simp]: "trace (emit e w) = trace w @ [e]"
  by (simp add: emit_def)

lemma cache_emit [simp]: "documentCache (emit e w) = documentCache w"
  by (simp add: emit_def)

lemma trace_cache_set [simp]: "trace (cache_set u r w) = trace w"
  by (simp add: cache_set_def)

lemma cache_cache_set [simp]: "documentCache (cache_set u r w) = (documentCache w)(u \<mapsto> r)"
  by (simp add: cache_set_def)

lemma trace_notify [simp]:
  "trace (notify cb n m w) = trace w @ (if cb then [Progress n m] else [])"
  by (simp add: notify_def)

lemma cache_notify [simp]: "documentCache (notify cb n m w) = documentCache w"
  by (simp add: notify_def)

lemma requests_notify [simp]: "requests (notify cb n m w) = requests w"
  by (simp add: requests_def)

lemma requests_cache_set [simp]: "requests (cache_set u r w) = requests w"
  by (simp add: requests_def)

lemma requests_emit_Fetch [simp]: "requests (emit (Fetch x) w) = requests w @ [x]"
  by (simp add: requests_def)

lemma suites_simps [simp]:
  "suites (emit (NewSuite s) w) = suites w @ [s]"
  "suites (emit (Fetch x) w) = suites w"
  "suites (emit (NewKey k) w) = suites w"
  "suites (emit (Raced t) w) = suites w"
  "suites (notify cb n m w) = suites w"
  "suites (cache_set u r w) = suites w"
  by (simp_all add: suites_def)

lemma races_simps [simp]:
  "races (emit (Raced t) w) = races w @ [t]"
  "races (emit (Fetch x) w) = races w"
  "races (emit (NewKey k) w) = races w"
  "races (emit (NewSuite s) w) = races w"
  "races (notify cb n m w) = races w"
  "races (cache_set u r w) = races w"
  by (simp_all add: races_def)

text \<open>A falsy value has no truthy property, and reading a truthy value never throws.\<close>

lemma truthy_owner: "get_prop v k = Inr p \<Longrightarrow> truthy p \<Longrightarrow> truthy v"
  by (cases v) auto

lemma truthy_get: "truthy d \<Longrightarrow> \<exists>x. get_prop d k = Inr x"
  by (cases d) simp_all

lemma wait_simps [simp]:
  "trace (wait d w) = trace w"
  "documentCache (wait d w) = documentCache w"
  "clock (wait d w) = clock w + d"
  "requests (wait d w) = requests w"
  "suites (wait d w) = suites w"
  "races (wait d w) = races w"
  "wait 0 w = w"
  by (simp_all add: wait_def requests_def suites_def races_def)

lemma clock_simps [simp]:
  "clock (emit e w) = clock w"
  "clock (cache_set u r w) = clock w"
  "clock (notify cb n m w) = clock w"
  by (simp_all add: emit_def cache_set_def notify_def)

text \<open>A request is one event, and time passes while it is awaited.\<close>

lemma fetch_json_world: "\<exists>d. snd (fetch_json ext failed target w) = wait d (emit (Fetch target) w)"
proof (cases "fetch ext (trace w) target")
  case (Responds d resp)
  show ?thesis
  proof (cases "json resp")
    case BodyNeverSettles
    then show ?thesis using Responds by (auto simp add: fetch_json_def)
  next
    case (Parses d' doc)
    then show ?thesis using Responds by (auto simp add: fetch_json_def)
  next
    case (ParseFails d' reason)
    then show ?thesis using Responds by (auto simp add: fetch_json_def)
  qed
next
  case (Rejects d reason)
  then show ?thesis by (auto simp add: fetch_json_def)
next
  case FetchNeverSettles
  then have "snd (fetch_json ext failed target w) = wait 0 (emit (Fetch target) w)"
    by (simp add: fetch_json_def)
  then show ?thesis by (rule exI)
qed

lemma fetch_json_settles:
  "network_settles ext \<Longrightarrow> fst (fetch_json ext failed target w) \<noteq> Inl NeverSettles"
  by (auto simp add: fetch_json_def network_settles_def thrown_def
      split: fetch_outcome.splits body.splits jv.splits)

lemma split_hash_nonempty: "split_hash s \<noteq> []"
  by (induction s) (auto split: list.splits)

section \<open>The loader and its cache\<close>

lemma load_hit:
  "documentCache w u = Some d \<Longrightarrow> loadUrlDocument ext (JStr u) w = (Inr d, w)"
  by (simp add: loadUrlDocument_def)

text \<open>
  On a miss the loader either waits for the network for ever, having written nothing, or
  returns a document, which it has written into the cache under the identifier, after one
  network request at most, and after none for a URN or a DID that is not a \<^verbatim>\<open>did:web\<close>
  one.
\<close>

lemma load_miss:
  assumes miss: "documentCache w u = None"
  shows "(\<not> urn_or_non_web_did u
            \<and> (\<exists>x t. loadUrlDocument ext (JStr u) w = (Inl NeverSettles, wait t (emit (Fetch x) w))))
         \<or> (\<exists>d w0. loadUrlDocument ext (JStr u) w = (Inr d, cache_set u d w0)
               \<and> (w0 = w \<or> (\<not> urn_or_non_web_did u \<and> (\<exists>x t. w0 = wait t (emit (Fetch x) w)))))"
proof (cases "urn_or_non_web_did u")
  case True
  then show ?thesis using miss by (auto simp add: loadUrlDocument_def Let_def)
next
  case other: False
  show ?thesis
  proof (cases "startsWith u ''did:web:''")
    case True
    let ?target = "''https://'' @ replace_colons (replace_first ''did:web:'' [] u) @ ''/did.json''"
    obtain r w1 where f: "fetch_json ext ''Failed to load DID document: '' ?target w = (r, w1)"
      by (cases "fetch_json ext ''Failed to load DID document: '' ?target w")
    then obtain t where w1: "w1 = wait t (emit (Fetch ?target) w)"
      using fetch_json_world [of ext "''Failed to load DID document: ''" ?target w] by auto
    show ?thesis
    proof (cases r)
      case (Inr doc)
      then show ?thesis
        using miss other True f w1 by (auto simp add: loadUrlDocument_def Let_def)
    next
      case (Inl e)
      then show ?thesis
        using miss other True f w1
        by (cases "e = NeverSettles") (auto simp add: loadUrlDocument_def Let_def)
    qed
  next
    case plain: False
    obtain r w1 where f: "fetch_json ext ''Failed to load document: '' u w = (r, w1)"
      by (cases "fetch_json ext ''Failed to load document: '' u w")
    then obtain t where w1: "w1 = wait t (emit (Fetch u) w)"
      using fetch_json_world [of ext "''Failed to load document: ''" u w] by auto
    show ?thesis
    proof (cases r)
      case (Inr doc)
      then show ?thesis
        using miss other plain f w1 by (auto simp add: loadUrlDocument_def Let_def)
    next
      case (Inl e)
      show ?thesis
      proof (cases "e = NeverSettles")
        case True
        then show ?thesis
          using miss other plain f w1 Inl by (auto simp add: loadUrlDocument_def Let_def)
      next
        case settled: False
        show ?thesis
        proof (cases "u = ''https://www.w3.org/2018/credentials/v1''")
          case True
          then show ?thesis
            using miss other plain f w1 Inl settled
            by (auto simp add: loadUrlDocument_def Let_def)
        next
          case not_credentials: False
          show ?thesis
          proof (cases "u = ''https://w3id.org/security/v2'' \<or> u = ''https://w3id.org/security/v1''")
            case True
            then show ?thesis
              using miss other plain f w1 Inl not_credentials settled
              by (auto simp add: loadUrlDocument_def Let_def)
          next
            case False
            then show ?thesis
              using miss other plain f w1 Inl not_credentials settled
              by (auto simp add: loadUrlDocument_def Let_def)
          qed
        qed
      qed
    qed
  qed
qed

lemma load_miss_placeholder:
  assumes "documentCache w u = None" and "urn_or_non_web_did u"
  shows "loadUrlDocument ext (JStr u) w =
           (Inr \<lparr>contextUrl = JNull, document = JObj [(''@id'', JStr u)], documentUrl = JStr u\<rparr>,
            cache_set u \<lparr>contextUrl = JNull, document = JObj [(''@id'', JStr u)], documentUrl = JStr u\<rparr> w)"
  using assms by (simp add: loadUrlDocument_def Let_def)

lemma load_non_string: "\<forall>u. url \<noteq> JStr u \<Longrightarrow> snd (loadUrlDocument ext url w) = w"
  by (cases url) (simp_all add: loadUrlDocument_def split: sum.splits)

text \<open>The loader throws nothing for a string: it returns a document or stays pending.\<close>

lemma load_string_total:
  "fst (loadUrlDocument ext (JStr u) w) = Inl NeverSettles
   \<or> (\<exists>d. fst (loadUrlDocument ext (JStr u) w) = Inr d)"
proof (cases "documentCache w u")
  case None
  from load_miss [OF None, of ext] show ?thesis by auto
next
  case (Some d)
  then show ?thesis by (simp add: load_hit)
qed

text \<open>With a network that settles it returns.\<close>

lemma load_settles:
  assumes "network_settles ext"
  shows "fst (loadUrlDocument ext (JStr u) w) \<noteq> Inl NeverSettles"
proof (cases "documentCache w u")
  case (Some d)
  then show ?thesis by (simp add: load_hit)
next
  case None
  show ?thesis
  proof (cases "urn_or_non_web_did u")
    case True
    then show ?thesis using None by (simp add: load_miss_placeholder)
  next
    case other: False
    show ?thesis
    proof (cases "startsWith u ''did:web:''")
      case True
      let ?target = "''https://'' @ replace_colons (replace_first ''did:web:'' [] u) @ ''/did.json''"
      from fetch_json_settles [OF assms]
      have "fst (fetch_json ext ''Failed to load DID document: '' ?target w) \<noteq> Inl NeverSettles" .
      then show ?thesis
        using None other True
        by (cases "fetch_json ext ''Failed to load DID document: '' ?target w")
          (auto simp add: loadUrlDocument_def Let_def split: sum.splits)
    next
      case False
      from fetch_json_settles [OF assms]
      have "fst (fetch_json ext ''Failed to load document: '' u w) \<noteq> Inl NeverSettles" .
      then show ?thesis
        using None other False
        by (cases "fetch_json ext ''Failed to load document: '' u w")
          (auto simp add: loadUrlDocument_def Let_def split: sum.splits)
    qed
  qed
qed

text \<open>The loader builds no suite and runs no race.\<close>

lemma load_quiet:
  "suites (snd (loadUrlDocument ext url w)) = suites w"
  "races (snd (loadUrlDocument ext url w)) = races w"
proof -
  have "suites (snd (loadUrlDocument ext url w)) = suites w
        \<and> races (snd (loadUrlDocument ext url w)) = races w"
  proof (cases "\<exists>u. url = JStr u")
    case False
    then show ?thesis by (simp add: load_non_string)
  next
    case True
    then obtain u where u: "url = JStr u" by blast
    show ?thesis
    proof (cases "documentCache w u")
      case (Some d)
      then show ?thesis using u by (simp add: load_hit)
    next
      case None
      from load_miss [OF None, of ext] show ?thesis using u by auto
    qed
  qed
  then show "suites (snd (loadUrlDocument ext url w)) = suites w"
    and "races (snd (loadUrlDocument ext url w)) = races w" by simp_all
qed

text \<open>The invariant of the cache holds at the start and the loader keeps it.\<close>

lemma loader_cache_emit [simp]: "loader_cache (emit e w) = loader_cache w"
  by (simp add: loader_cache_def)

lemma loader_cache_notify [simp]: "loader_cache (notify cb n m w) = loader_cache w"
  by (simp add: loader_cache_def)

lemma loader_cache_wait [simp]: "loader_cache (wait d w) = loader_cache w"
  by (simp add: loader_cache_def)

lemma loader_cache_load:
  assumes "loader_cache w"
  shows "loader_cache (snd (loadUrlDocument ext url w))"
proof (cases "\<exists>u. url = JStr u")
  case False
  then show ?thesis using assms by (simp add: load_non_string)
next
  case True
  then obtain u where u: "url = JStr u" by blast
  show ?thesis
  proof (cases "documentCache w u")
    case (Some d)
    then show ?thesis using assms u by (simp add: load_hit)
  next
    case None
    show ?thesis
    proof (cases "urn_or_non_web_did u")
      case True
      then show ?thesis using assms u None
        by (simp add: load_miss_placeholder) (simp add: loader_cache_def)
    next
      case False
      from load_miss [OF None, of ext] False
      consider (pending) x t where "loadUrlDocument ext (JStr u) w = (Inl NeverSettles, wait t (emit (Fetch x) w))"
        | (same) d where "loadUrlDocument ext (JStr u) w = (Inr d, cache_set u d w)"
        | (fetched) d x t where "loadUrlDocument ext (JStr u) w = (Inr d, cache_set u d (wait t (emit (Fetch x) w)))"
        by blast
      then show ?thesis
      proof cases
        case pending
        then show ?thesis using assms u by simp
      next
        case same
        then show ?thesis using assms u False
          by (auto simp add: loader_cache_def split: if_splits)
      next
        case fetched
        then show ?thesis using assms u False
          by (auto simp add: loader_cache_def split: if_splits)
      qed
    qed
  qed
qed

lemma loader_cache_initial: "loader_cache initial_world"
  by (simp add: loader_cache_def initial_world_def)

section \<open>The resolver\<close>

text \<open>The world after \<^verbatim>\<open>getPublicKeyFromDID\<close>: one notification and one call of the loader.\<close>

lemma notify_template_string [simp]:
  "notify_template cb n before (JStr s) w = Inr (notify cb n (before @ s) w)"
  by (simp add: notify_template_def notify_def)

lemma notify_template_world:
  "notify_template cb n before v w = Inr w1 \<Longrightarrow> \<exists>m. w1 = notify cb n m w"
  by (auto simp add: notify_template_def notify_def split: if_splits sum.splits)

lemma getPublicKeyFromDID_world:
  "snd (getPublicKeyFromDID ext v cb w) =
     (case notify_template cb RESOLVE_DID ''Resolving verification method: '' v w of
        Inl e \<Rightarrow> w
      | Inr w1 \<Rightarrow>
          (case v of
             JStr vm \<Rightarrow> snd (loadUrlDocument ext (JStr (hd (split_hash vm))) w1)
           | _ \<Rightarrow> w1))"
proof (cases "notify_template cb RESOLVE_DID ''Resolving verification method: '' v w")
  case (Inl e)
  then show ?thesis
    by (simp add: getPublicKeyFromDID_def getPublicKeyFromDID_try_def split: sum.splits)
next
  case (Inr w1)
  show ?thesis
  proof (cases "\<exists>vm. v = JStr vm")
    case False
    then show ?thesis using Inr
      by (cases v) (simp_all add: getPublicKeyFromDID_def getPublicKeyFromDID_try_def
          message_includes_def cannot_read_def split: sum.splits)
  next
    case True
    then obtain vm where v: "v = JStr vm" by blast
    show ?thesis using Inr unfolding v
      by (simp add: getPublicKeyFromDID_def getPublicKeyFromDID_try_def Let_def
          split: sum.splits prod.splits)
  qed
qed

lemma resolve_quiet:
  "suites (snd (getPublicKeyFromDID ext v cb w)) = suites w"
  "races (snd (getPublicKeyFromDID ext v cb w)) = races w"
  by (auto simp add: getPublicKeyFromDID_world load_quiet
      split: sum.splits jv.splits dest!: notify_template_world)

lemma resolve_inv:
  assumes "\<And>url w. P w \<Longrightarrow> P (snd (loadUrlDocument ext url w))"
    and "\<And>e w. P w \<Longrightarrow> P (emit e w)"
    and "P w"
  shows "P (snd (getPublicKeyFromDID ext v cb w))"
proof (cases "notify_template cb RESOLVE_DID ''Resolving verification method: '' v w")
  case (Inl e)
  then show ?thesis using assms(3) by (simp add: getPublicKeyFromDID_world)
next
  case (Inr w1)
  from notify_template_world [OF Inr] obtain m where "w1 = notify cb RESOLVE_DID m w" by blast
  then have "P w1" using assms(2,3) by (simp add: notify_def)
  then show ?thesis using Inr assms(1)
    by (cases v) (simp_all add: getPublicKeyFromDID_world)
qed

subsection \<open>The search in the four collections\<close>

lemma matches_truthy: "matches vm m \<Longrightarrow> truthy m"
  by (cases m) (auto simp add: matches_def cannot_read_def)

text \<open>
  \<^verbatim>\<open>find\<close> gives the first matching entry, if no entry before it is \<^verbatim>\<open>null\<close>; whatever the
  entries are, it gives a matching entry or \<^verbatim>\<open>undefined\<close>, or throws the TypeError of a read
  on \<^verbatim>\<open>null\<close>.
\<close>

lemma array_find_first:
  assumes "\<forall>x \<in> set (takeWhile (\<lambda>m. \<not> matches vm m) xs). x \<noteq> JNull \<and> x \<noteq> JUndefined"
  shows "array_find vm (relative_id vm) xs
           = Inr (case List.find (matches vm) xs of None \<Rightarrow> JUndefined | Some m \<Rightarrow> m)"
  using assms
proof (induction xs)
  case Nil
  then show ?case by simp
next
  case (Cons x xs)
  show ?case
  proof (cases "matches vm x")
    case True
    then show ?thesis by (cases x) (auto simp add: matches_def)
  next
    case False
    with Cons.prems have "x \<noteq> JNull" "x \<noteq> JUndefined"
      and rest: "\<forall>y \<in> set (takeWhile (\<lambda>m. \<not> matches vm m) xs). y \<noteq> JNull \<and> y \<noteq> JUndefined"
      by simp_all
    then show ?thesis using False Cons.IH [OF rest]
      by (cases x) (auto simp add: matches_def)
  qed
qed

lemma array_find_outcome:
  "array_find vm (relative_id vm) xs = Inl e \<Longrightarrow>
     e = cannot_read ''undefined'' ''id'' \<or> e = cannot_read ''null'' ''id''"
  "array_find vm (relative_id vm) xs = Inr k \<Longrightarrow> k = JUndefined \<or> matches vm k"
proof (induction xs)
  case Nil
  { case 1 then show ?case by simp }
  { case 2 then show ?case by simp }
next
  case (Cons x xs)
  { case 1 then show ?case using Cons.IH(1)
      by (cases x) (auto split: if_splits sum.splits) }
  { case 2 then show ?case using Cons.IH(2)
      by (cases x) (auto simp add: matches_def split: if_splits sum.splits) }
qed

lemma find_append_list:
  "List.find P (xs @ ys) = (case List.find P xs of None \<Rightarrow> List.find P ys | Some x \<Rightarrow> Some x)"
  by (induction xs) simp_all

lemma find_none_iff: "(List.find P xs = None) = (\<forall>x \<in> set xs. \<not> P x)"
  by (induction xs) simp_all

text \<open>The loop agrees with the first match in the concatenation of the collections.\<close>

lemma find_in_possibleArrays_first:
  assumes "\<forall>x \<in> set (takeWhile (\<lambda>m. \<not> matches vm m) (concat (map elems arrays))).
             x \<noteq> JNull \<and> x \<noteq> JUndefined"
  shows "find_in_possibleArrays vm (relative_id vm) arrays
           = Inr (case List.find (matches vm) (concat (map elems arrays)) of
                    None \<Rightarrow> JNull | Some m \<Rightarrow> m)"
  using assms
proof (induction arrays)
  case Nil
  then show ?case by simp
next
  case (Cons a arrays)
  show ?case
  proof (cases "\<exists>xs. a = JArr xs")
    case False
    then have "elems a = []" by (cases a) (simp_all add: elems_def)
    moreover have "find_in_possibleArrays vm (relative_id vm) (a # arrays)
                   = find_in_possibleArrays vm (relative_id vm) arrays"
      using False by (cases a) simp_all
    ultimately show ?thesis using Cons by simp
  next
    case True
    then obtain xs where a: "a = JArr xs" by blast
    have ea: "elems a = xs" and ea': "elems (JArr xs) = xs" by (simp_all add: a elems_def)
    have prem: "\<forall>x \<in> set (takeWhile (\<lambda>m. \<not> matches vm m) (xs @ concat (map elems arrays))).
                  x \<noteq> JNull \<and> x \<noteq> JUndefined"
      using Cons.prems by (simp add: ea)
    show ?thesis
    proof (cases "List.find (matches vm) xs")
      case None
      then have all: "\<forall>x \<in> set xs. \<not> matches vm x" by (simp add: find_none_iff)
      then have tw: "takeWhile (\<lambda>m. \<not> matches vm m) (xs @ concat (map elems arrays))
                     = xs @ takeWhile (\<lambda>m. \<not> matches vm m) (concat (map elems arrays))"
        by (simp add: takeWhile_append2)
      have here: "\<forall>x \<in> set (takeWhile (\<lambda>m. \<not> matches vm m) xs). x \<noteq> JNull \<and> x \<noteq> JUndefined"
        and rest: "\<forall>x \<in> set (takeWhile (\<lambda>m. \<not> matches vm m) (concat (map elems arrays))).
                     x \<noteq> JNull \<and> x \<noteq> JUndefined"
        using prem unfolding tw by (auto dest: set_takeWhileD)
      show ?thesis
        using array_find_first [OF here] None Cons.IH [OF rest]
        by (simp add: a ea' find_append_list)
    next
      case (Some m)
      then have ex: "\<exists>x \<in> set xs. \<not> \<not> matches vm x"
        using find_none_iff [of "matches vm" xs] by auto
      then have tw: "takeWhile (\<lambda>m. \<not> matches vm m) (xs @ concat (map elems arrays))
                     = takeWhile (\<lambda>m. \<not> matches vm m) xs"
        by (auto simp add: takeWhile_append1 dest!: bspec)
      have here: "\<forall>x \<in> set (takeWhile (\<lambda>m. \<not> matches vm m) xs). x \<noteq> JNull \<and> x \<noteq> JUndefined"
        using prem unfolding tw .
      have "matches vm m" using Some by (auto simp add: find_Some_iff)
      then have "truthy m" by (rule matches_truthy)
      then show ?thesis
        using array_find_first [OF here] Some
        by (simp add: a ea' find_append_list)
    qed
  qed
qed

lemma find_in_possibleArrays_outcome:
  "find_in_possibleArrays vm (relative_id vm) arrays = Inl e \<Longrightarrow>
     e = cannot_read ''undefined'' ''id'' \<or> e = cannot_read ''null'' ''id''"
  "find_in_possibleArrays vm (relative_id vm) arrays = Inr k \<Longrightarrow> k = JNull \<or> matches vm k"
proof (induction arrays)
  case Nil
  { case 1 then show ?case by simp }
  { case 2 then show ?case by simp }
next
  case (Cons a arrays)
  { case 1 then show ?case using Cons.IH(1) array_find_outcome(1) [of vm _ e]
      by (cases a) (auto split: if_splits sum.splits) }
  { case 2 then show ?case using Cons.IH(2)
      by (cases a) (auto split: if_splits sum.splits dest: array_find_outcome(2)) }
qed

lemma get_props_truthy:
  assumes "truthy d"
  shows "\<exists>arrays. get_props d ks = Inr arrays
           \<and> concat (map elems arrays) = concat (map (collection d) ks)"
proof (induction ks)
  case Nil
  show ?case by simp
next
  case (Cons k ks)
  from truthy_get [OF assms, of k] obtain x where "get_prop d k = Inr x" by blast
  with Cons show ?case by (auto simp add: collection_def)
qed

subsection \<open>The resolver on a string\<close>

lemma try_on_string:
  assumes "fst (loadUrlDocument ext (JStr (hd (split_hash vm)))
             (notify cb RESOLVE_DID (''Resolving verification method: '' @ vm) w)) = Inr response"
  shows "fst (getPublicKeyFromDID_try ext (JStr vm) cb w) =
           (if taken_as_unreachable (hd (split_hash vm)) (document response) then
              Inl (JsError ''Error'' ''Failed to fetch DID document'')
            else case get_props (document response)
                   [''verificationMethod'', ''authentication'', ''assertionMethod'', ''publicKey''] of
              Inl e \<Rightarrow> Inl e
            | Inr arrays \<Rightarrow>
                (case find_in_possibleArrays vm (relative_id vm) arrays of
                   Inl e \<Rightarrow> Inl e
                 | Inr pk \<Rightarrow> if \<not> truthy pk then Inl (not_found vm) else Inr pk))"
  using assms
  unfolding getPublicKeyFromDID_try_def Let_def case_prod_beta
  by (simp add: taken_as_unreachable_def relative_id_def not_found_def
      split: sum.splits)

lemma resolve_rejected:
  assumes "fst (loadUrlDocument ext (JStr (hd (split_hash vm)))
             (notify cb RESOLVE_DID (''Resolving verification method: '' @ vm) w)) = Inr response"
    and "taken_as_unreachable (hd (split_hash vm)) (document response)"
  shows "fst (getPublicKeyFromDID ext (JStr vm) cb w) = Inr JNull"
  using try_on_string [OF assms(1)] assms(2)
  by (cases "getPublicKeyFromDID_try ext (JStr vm) cb w")
    (simp add: getPublicKeyFromDID_def message_includes_def startsWith_def)

lemma resolve_accepted_never_null:
  assumes loaded: "fst (loadUrlDocument ext (JStr (hd (split_hash vm)))
             (notify cb RESOLVE_DID (''Resolving verification method: '' @ vm) w)) = Inr response"
    and accepted: "\<not> taken_as_unreachable (hd (split_hash vm)) (document response)"
    and msg: "\<not> str_includes (err_message (not_found vm)) ''Failed to fetch''"
  shows "fst (getPublicKeyFromDID ext (JStr vm) cb w) \<noteq> Inr JNull"
proof -
  have d: "truthy (document response)" using accepted by (simp add: taken_as_unreachable_def)
  from get_props_truthy [OF d] obtain arrays where arrays:
    "get_props (document response)
       [''verificationMethod'', ''authentication'', ''assertionMethod'', ''publicKey''] = Inr arrays"
    by blast
  have t: "fst (getPublicKeyFromDID_try ext (JStr vm) cb w) =
      (case find_in_possibleArrays vm (relative_id vm) arrays of
         Inl e \<Rightarrow> Inl e
       | Inr pk \<Rightarrow> if \<not> truthy pk then Inl (not_found vm) else Inr pk)"
    using try_on_string [OF loaded] accepted arrays by simp
  show ?thesis
  proof (cases "find_in_possibleArrays vm (relative_id vm) arrays")
    case (Inl e)
    with find_in_possibleArrays_outcome(1) [OF Inl] t
    show ?thesis
      by (cases "getPublicKeyFromDID_try ext (JStr vm) cb w")
        (auto simp add: getPublicKeyFromDID_def message_includes_def cannot_read_def startsWith_def)
  next
    case (Inr pk)
    with t msg show ?thesis
      by (cases "getPublicKeyFromDID_try ext (JStr vm) cb w")
        (auto simp add: getPublicKeyFromDID_def message_includes_def not_found_def
          split: if_splits)
  qed
qed

lemma resolve_accepted:
  assumes loaded: "fst (loadUrlDocument ext (JStr (hd (split_hash vm)))
             (notify cb RESOLVE_DID (''Resolving verification method: '' @ vm) w)) = Inr response"
    and accepted: "\<not> taken_as_unreachable (hd (split_hash vm)) (document response)"
    and nonnull: "\<forall>x \<in> set (takeWhile (\<lambda>m. \<not> matches vm m) (spec_entries (document response))).
                    x \<noteq> JNull \<and> x \<noteq> JUndefined"
  shows "fst (getPublicKeyFromDID_try ext (JStr vm) cb w) =
           (case spec_first_match vm (document response) of
              Some m \<Rightarrow> Inr m
            | None \<Rightarrow> Inl (not_found vm))"
proof -
  have d: "truthy (document response)" using accepted by (simp add: taken_as_unreachable_def)
  from get_props_truthy [OF d] obtain arrays where arrays:
    "get_props (document response)
       [''verificationMethod'', ''authentication'', ''assertionMethod'', ''publicKey''] = Inr arrays"
    and entries: "concat (map elems arrays) = spec_entries (document response)"
    unfolding spec_entries_def by blast
  have t: "fst (getPublicKeyFromDID_try ext (JStr vm) cb w) =
      (case find_in_possibleArrays vm (relative_id vm) arrays of
         Inl e \<Rightarrow> Inl e
       | Inr pk \<Rightarrow> if \<not> truthy pk then Inl (not_found vm) else Inr pk)"
    using try_on_string [OF loaded] accepted arrays by simp
  have f: "find_in_possibleArrays vm (relative_id vm) arrays
           = Inr (case spec_first_match vm (document response) of None \<Rightarrow> JNull | Some m \<Rightarrow> m)"
    using find_in_possibleArrays_first [of vm arrays] nonnull
    unfolding entries spec_first_match_def by simp
  show ?thesis
  proof (cases "spec_first_match vm (document response)")
    case None
    then show ?thesis using t f by simp
  next
    case (Some m)
    then have "matches vm m" by (auto simp add: spec_first_match_def find_Some_iff)
    then have "truthy m" by (rule matches_truthy)
    then show ?thesis using t f Some by simp
  qed
qed

section \<open>The orchestrator\<close>

subsection \<open>The race\<close>

lemma verify_with_timeout_world:
  "snd (snd (verify_with_timeout ext credential s w)) =
     wait (snd (race (fst (jsigs_verify ext credential s))))
       (emit (Raced (snd (race (fst (jsigs_verify ext credential s))))) w)"
  by (simp add: verify_with_timeout_def Let_def split: sum.splits prod.splits)


lemma verify_with_timeout_quiet:
  "suites (snd (snd (verify_with_timeout ext credential s w))) = suites w"
  "races (snd (snd (verify_with_timeout ext credential s w)))
     = races w @ [snd (race (fst (jsigs_verify ext credential s)))]"
  "clock (snd (snd (verify_with_timeout ext credential s w)))
     = clock w + snd (race (fst (jsigs_verify ext credential s)))"
  by (simp_all add: verify_with_timeout_world)

lemma timeout_error_is_timeout:
  "message_includes var timeout_error ''timeout'' = Inr True"
  by (simp add: message_includes_def timeout_error_def startsWith_def)

lemma race_time: "snd (race unit) \<le> 10000"
  by (simp add: race_def split: verify_unit.splits)

lemma race_stalled: "race Stalls = (Inl timeout_error, 10000)"
  by (simp add: race_def)



lemma verify_with_timeout_stalled:
  assumes "fst (jsigs_verify ext credential s) = Stalls"
  shows "fst (verify_with_timeout ext credential s w) = Inr timeout_result"
  using assms
  by (simp add: verify_with_timeout_def Let_def case_prod_beta race_stalled
      timeout_error_is_timeout)

subsection \<open>What is thrown\<close>

text \<open>
  What the statements of the module throw themselves are \<^verbatim>\<open>Error\<close> instances: the
  TypeErrors of property reads and string conversions, and the errors it constructs.
\<close>

lemma get_prop_error: "get_prop v k = Inl e \<Longrightarrow> \<exists>n m. e = JsError n m"
  by (cases v) (auto simp add: cannot_read_def)

lemma js_to_string_error:
  "js_to_string v = Inl e \<Longrightarrow> e = cannot_convert"
  "js_join vs = Inl e \<Longrightarrow> e = cannot_convert"
  by (induction v and vs rule: js_to_string_js_join.induct)
    (auto split: if_splits sum.splits jv.splits list.splits)

lemma notify_template_error:
  "notify_template cb n before v w = Inl e \<Longrightarrow> e = cannot_convert"
  by (auto simp add: notify_template_def split: if_splits sum.splits dest: js_to_string_error(1))

lemma array_find_error: "array_find vm rel xs = Inl e \<Longrightarrow> \<exists>n m. e = JsError n m"
  by (induction xs) (auto split: sum.splits if_splits dest: get_prop_error)

lemma find_in_possibleArrays_error:
  "find_in_possibleArrays vm rel arrays = Inl e \<Longrightarrow> \<exists>n m. e = JsError n m"
proof (induction arrays)
  case Nil
  then show ?case by simp
next
  case (Cons a arrays)
  then show ?case
    by (cases a) (auto split: sum.splits if_splits dest: array_find_error)
qed

lemma get_props_error: "get_props v ks = Inl e \<Longrightarrow> \<exists>n m. e = JsError n m"
  by (induction ks arbitrary: e) (auto split: sum.splits dest: get_prop_error)

lemma message_includes_Error [simp]:
  "message_includes var (JsError n m) p = Inr (str_includes m p)"
  by (simp add: message_includes_def)

lemma message_includes_pending [simp]:
  "message_includes var NeverSettles p = Inl NeverSettles"
  by (simp add: message_includes_def)

text \<open>
  The \<^verbatim>\<open>try\<close> block of the resolver throws \<^verbatim>\<open>Error\<close> instances only, or waits for ever for the
  loader; so does the resolver.
\<close>

lemma resolver_try_error:
  assumes "fst (getPublicKeyFromDID_try ext v cb w) = Inl e"
  shows "(e = NeverSettles \<and> (\<exists>vm. v = JStr vm
              \<and> (\<exists>w1. fst (loadUrlDocument ext (JStr (hd (split_hash vm))) w1) = Inl NeverSettles)))
         \<or> (\<exists>n m. e = JsError n m)"
proof (cases "notify_template cb RESOLVE_DID ''Resolving verification method: '' v w")
  case (Inl e')
  then have "e = cannot_convert" using assms notify_template_error [OF Inl]
    by (simp add: getPublicKeyFromDID_try_def)
  then show ?thesis by (simp add: cannot_convert_def)
next
  case (Inr w1)
  show ?thesis
  proof (cases "\<exists>vm. v = JStr vm")
    case False
    then show ?thesis using assms Inr
      by (cases v) (auto simp add: getPublicKeyFromDID_try_def cannot_read_def)
  next
    case True
    then obtain vm where v: "v = JStr vm" by blast
    let ?did = "hd (split_hash vm)"
    show ?thesis
    proof (cases "fst (loadUrlDocument ext (JStr ?did) w1)")
      case load: (Inl le)
      then have "le = NeverSettles" using load_string_total [of ext ?did w1] by auto
      then have "e = NeverSettles" using assms Inr load unfolding v
        by (simp add: getPublicKeyFromDID_try_def Let_def case_prod_beta)
      then show ?thesis using v load \<open>le = NeverSettles\<close> by blast
    next
      case load: (Inr response)
      have "\<exists>n m. e = JsError n m"
        using assms Inr load unfolding v
        by (auto simp add: getPublicKeyFromDID_try_def Let_def case_prod_beta
            simp del: get_props.simps find_in_possibleArrays.simps
            split: if_splits sum.splits
            dest: get_props_error find_in_possibleArrays_error)
      then show ?thesis by simp
    qed
  qed
qed

lemma resolver_error:
  assumes "fst (getPublicKeyFromDID ext v cb w) = Inl e"
  shows "(e = NeverSettles \<and> (\<exists>vm. v = JStr vm
              \<and> (\<exists>w1. fst (loadUrlDocument ext (JStr (hd (split_hash vm))) w1) = Inl NeverSettles)))
         \<or> (\<exists>n m. e = JsError n m)"
proof (cases "fst (getPublicKeyFromDID_try ext v cb w)")
  case (Inr pk)
  then show ?thesis using assms
    by (simp add: getPublicKeyFromDID_def case_prod_beta)
next
  case (Inl te)
  from resolver_try_error [OF Inl]
  show ?thesis
  proof
    assume "te = NeverSettles \<and> (\<exists>vm. v = JStr vm
              \<and> (\<exists>w1. fst (loadUrlDocument ext (JStr (hd (split_hash vm))) w1) = Inl NeverSettles))"
    moreover from this have "e = NeverSettles" using assms Inl
      by (simp add: getPublicKeyFromDID_def case_prod_beta)
    ultimately show ?thesis by blast
  next
    assume "\<exists>n m. te = JsError n m"
    then obtain n m where "te = JsError n m" by blast
    then have "e = JsError n m" using assms Inl
      by (simp add: getPublicKeyFromDID_def case_prod_beta split: if_splits)
    then show ?thesis by blast
  qed
qed

lemma resolver_settles:
  assumes "network_settles ext"
  shows "fst (getPublicKeyFromDID ext v cb w) \<noteq> Inl NeverSettles"
proof
  assume "fst (getPublicKeyFromDID ext v cb w) = Inl NeverSettles"
  from resolver_error [OF this] load_settles [OF assms] show False by auto
qed



subsection \<open>The handler\<close>



text \<open>The handler turns an \<^verbatim>\<open>Error\<close> instance into the safe-mode or the generic failure.\<close>

lemma catch_error_Error:
  "catch_error (JsError n m) =
     Inr (if n = ''jsonld.ValidationError'' \<and> str_includes m ''Safe mode''
          then safe_mode_result (JStr m) else generic_result (JStr m) (JErr n m))"
  by (simp add: catch_error_def caught_value_def)


subsection \<open>The stages of the call\<close>

text \<open>
  The stages of the \<^verbatim>\<open>try\<close> block: either it ends before a suite is built, with the
  credential as it was; or it builds the suite from the key record that the resolver
  returned, and then either the constructor throws or the race is run, which starts at
  the time at which the resolver returned.
\<close>

lemma try_stages:
  "(suites (snd (snd (verifyCredentialSignature_try ext credential cb w))) = suites w
      \<and> races (snd (snd (verifyCredentialSignature_try ext credential cb w))) = races w
      \<and> fst (snd (verifyCredentialSignature_try ext credential cb w)) = credential)
   \<or> (\<exists>pb vm pk i.
         get_prop credential ''proof'' = Inr pb
       \<and> get_prop pb ''verificationMethod'' = Inr vm
       \<and> fst (getPublicKeyFromDID ext vm cb
               (notify cb CHECK_PROOF ''Checking proof format: Ed25519Signature2018''
                 (notify cb START ''Starting verification'' w))) = Inr pk
       \<and> get_prop pk ''id'' = Inr i
       \<and> suites (snd (snd (verifyCredentialSignature_try ext credential cb w)))
           = suites w @ [\<lparr>suite_key = VerificationKey pk, suite_verificationMethod = i\<rparr>]
       \<and> ((\<exists>e. suite_throws ext \<lparr>suite_key = VerificationKey pk, suite_verificationMethod = i\<rparr> = Some e
              \<and> fst (verifyCredentialSignature_try ext credential cb w) = Inl (thrown e)
              \<and> races (snd (snd (verifyCredentialSignature_try ext credential cb w))) = races w
              \<and> fst (snd (verifyCredentialSignature_try ext credential cb w)) = credential)
          \<or> (suite_throws ext \<lparr>suite_key = VerificationKey pk, suite_verificationMethod = i\<rparr> = None
              \<and> (\<exists>w7. races w7 = races w
                    \<and> suites w7 = suites w @ [\<lparr>suite_key = VerificationKey pk, suite_verificationMethod = i\<rparr>]
                    \<and> clock w7 = clock (snd (getPublicKeyFromDID ext vm cb
                         (notify cb CHECK_PROOF ''Checking proof format: Ed25519Signature2018''
                           (notify cb START ''Starting verification'' w))))
                    \<and> verifyCredentialSignature_try ext credential cb w
                        = verify_with_timeout ext credential
                            \<lparr>suite_key = VerificationKey pk, suite_verificationMethod = i\<rparr> w7))))"
  unfolding verifyCredentialSignature_try_def Let_def case_prod_beta
  apply (auto simp add: resolve_quiet verify_with_timeout_quiet
      split: sum.splits option.splits)
  apply (rule exI, rule conjI [rotated], rule conjI [rotated], rule conjI [rotated], rule refl)
  apply (simp_all add: resolve_quiet)
  done



subsection \<open>Invariants\<close>

text \<open>
  A property of worlds that the loader, every event and the passing of time keep is kept
  by the whole call; so every reachable world satisfies the invariant of the cache.
\<close>

lemma try_inv:
  assumes load: "\<And>url w. P w \<Longrightarrow> P (snd (loadUrlDocument ext url w))"
    and emit: "\<And>e w. P w \<Longrightarrow> P (emit e w)"
    and wait: "\<And>d w. P w \<Longrightarrow> P (wait d w)"
    and start: "P w"
  shows "P (snd (snd (verifyCredentialSignature_try ext credential cb w)))"
proof -
  have n: "P (notify cb n m w)" if "P w" for n m w
    using that emit by (simp add: notify_def)
  have r: "P (snd (getPublicKeyFromDID ext v cb w))" if "P w" for v w
    using resolve_inv [of P ext w v cb] load emit that by blast
  have v: "P (snd (snd (verify_with_timeout ext credential s w)))" if "P w" for s w
    using that emit wait by (simp add: verify_with_timeout_world)
  show ?thesis
    unfolding verifyCredentialSignature_try_def Let_def case_prod_beta
    by (auto simp add: start n r v emit split: sum.splits option.splits)
qed

lemma verify_world:
  "snd (snd (verifyCredentialSignature ext credential cb w))
     = snd (snd (verifyCredentialSignature_try ext credential cb w))"
  "fst (snd (verifyCredentialSignature ext credential cb w))
     = fst (snd (verifyCredentialSignature_try ext credential cb w))"
  by (simp_all add: verifyCredentialSignature_def split: prod.splits sum.splits)

lemma verify_inv:
  assumes "\<And>url w. P w \<Longrightarrow> P (snd (loadUrlDocument ext url w))"
    and "\<And>e w. P w \<Longrightarrow> P (emit e w)"
    and "\<And>d w. P w \<Longrightarrow> P (wait d w)"
    and "P w"
  shows "P (snd (snd (verifyCredentialSignature ext credential cb w)))"
  unfolding verify_world using try_inv [of P ext w credential cb] assms by simp

lemma reachable_loader_cache: "reachable ext w \<Longrightarrow> loader_cache w"
proof (induction rule: reachable.induct)
  case start
  show ?case by (rule loader_cache_initial)
next
  case (load w url)
  then show ?case by (simp add: loader_cache_load)
next
  case (resolve w vm cb)
  then show ?case using resolve_inv [of loader_cache ext w vm cb]
    by (simp add: loader_cache_load)
next
  case (verify w credential cb)
  then show ?case using verify_inv [of loader_cache ext w credential cb]
    by (simp add: loader_cache_load)
qed

subsection \<open>Time\<close>

text \<open>The clock does not go back while the loader or the resolver runs.\<close>

lemma load_clock: "clock w \<le> clock (snd (loadUrlDocument ext url w))"
proof (cases "\<exists>u. url = JStr u")
  case False
  then show ?thesis by (simp add: load_non_string)
next
  case True
  then obtain u where u: "url = JStr u" by blast
  show ?thesis
  proof (cases "documentCache w u")
    case (Some d)
    then show ?thesis using u by (simp add: load_hit)
  next
    case None
    from load_miss [OF None, of ext] show ?thesis using u by auto
  qed
qed

lemma resolve_clock: "clock w \<le> clock (snd (getPublicKeyFromDID ext v cb w))"
proof -
  have "clock w \<le> clock (snd (loadUrlDocument ext url w0))" if "clock w \<le> clock w0" for url w0
    using that load_clock [of w0 ext url] by simp
  moreover have "clock w \<le> clock (emit e w0)" if "clock w \<le> clock w0" for e w0
    using that by simp
  ultimately show ?thesis
    using resolve_inv [of "\<lambda>x. clock w \<le> clock x" ext w v cb] by simp
qed

subsection \<open>The checks before the key is resolved\<close>

text \<open>
  A credential whose \<^verbatim>\<open>proof\<close> is missing (or falsy) gets the missing-proof result, and the
  world is untouched. A credential whose \<^verbatim>\<open>proof.type\<close> is not \<^verbatim>\<open>Ed25519Signature2018\<close> and
  can be made into text gets the unsupported-type result, whose message quotes the type;
  the only thing that has happened by then is the first call of the progress callback, if
  there is one. When the type cannot be made into text, the result is the failure made of
  the TypeError. In each case nothing was requested from the network.
\<close>

lemma missing_proof_before_any_loading:
  assumes "get_prop credential ''proof'' = Inr p" and "\<not> truthy p"
  shows "verifyCredentialSignature ext credential cb w = (Inr missing_proof_result, credential, w)"
  using assms
  by (simp add: verifyCredentialSignature_def verifyCredentialSignature_try_def)

lemma unsupported_type_before_any_loading:
  assumes "get_prop credential ''proof'' = Inr p" and "truthy p"
    and "get_prop p ''type'' = Inr t" and "t \<noteq> JStr ''Ed25519Signature2018''"
  shows "verifyCredentialSignature ext credential cb w
           = (case js_to_string t of
                Inr type_text \<Rightarrow> Inr (unsupported_type_result type_text)
              | Inl type_error \<Rightarrow>
                  Inr (generic_result (JStr ''Cannot convert object to primitive value'')
                         (JErr ''TypeError'' ''Cannot convert object to primitive value'')),
              credential, notify cb START ''Starting verification'' w)"
    and "requests (notify cb START ''Starting verification'' w) = requests w"
    and "documentCache (notify cb START ''Starting verification'' w) = documentCache w"
proof -
  have owner: "truthy credential" using assms(1,2) by (rule truthy_owner)
  show "verifyCredentialSignature ext credential cb w
           = (case js_to_string t of
                Inr type_text \<Rightarrow> Inr (unsupported_type_result type_text)
              | Inl type_error \<Rightarrow>
                  Inr (generic_result (JStr ''Cannot convert object to primitive value'')
                         (JErr ''TypeError'' ''Cannot convert object to primitive value'')),
              credential, notify cb START ''Starting verification'' w)"
  proof (cases "js_to_string t")
    case (Inr type_text)
    then show ?thesis using assms owner
      by (simp add: verifyCredentialSignature_def verifyCredentialSignature_try_def)
  next
    case (Inl type_error)
    from js_to_string_error(1) [OF Inl] have "type_error = cannot_convert" .
    then show ?thesis using assms owner Inl
      by (simp add: verifyCredentialSignature_def verifyCredentialSignature_try_def
          cannot_convert_def catch_error_Error startsWith_def)
  qed
qed simp_all

text \<open>
  The handler reads \<^verbatim>\<open>error.name\<close>: when a library throws \<^verbatim>\<open>null\<close>, the read throws, and
  this TypeError leaves \<^verbatim>\<open>verifyCredentialSignature\<close>.
\<close>

lemma catch_error_null: "catch_error (Thrown JNull) = Inl (cannot_read ''null'' ''name'')"
  by (simp add: catch_error_def caught_value_def)

section \<open>The examples, evaluated\<close>

lemma served_load:
  "fst (loadUrlDocument (stub [(''https://example.com/did.json'', doc)] unit)
          (JStr ''did:web:example.com'') initial_world)
     = Inr \<lparr>contextUrl = JNull, document = doc, documentUrl = JStr ''did:web:example.com''\<rparr>"
  by (simp add: loadUrlDocument_def initial_world_def urn_or_non_web_did_def startsWith_def
      fetch_json_def stub_def served_def replace_colons_def Let_def)

lemma example_split: "hd (split_hash ''did:web:example.com#key-1'') = ''did:web:example.com''"
  "relative_id ''did:web:example.com#key-1'' = ''#key-1''"
  by (simp_all add: relative_id_def hash_fragment_def)

lemma served_loaded:
  "fst (loadUrlDocument (stub [(''https://example.com/did.json'', doc)] unit)
          (JStr (hd (split_hash ''did:web:example.com#key-1'')))
          (notify False RESOLVE_DID
             (''Resolving verification method: '' @ ''did:web:example.com#key-1'') initial_world))
     = Inr \<lparr>contextUrl = JNull, document = doc, documentUrl = JStr ''did:web:example.com''\<rparr>"
  unfolding example_split using served_load [of doc unit] by (simp add: notify_def)

lemma example_message:
  "\<not> str_includes (err_message (not_found ''did:web:example.com#key-1'')) ''Failed to fetch''"
  by (simp add: not_found_def startsWith_def)

lemma example_load:
  "loadUrlDocument (example_net unit) (JStr ''did:web:example.com'') initial_world =
     (Inr \<lparr>contextUrl = JNull, document = example_document, documentUrl = JStr ''did:web:example.com''\<rparr>,
      cache_set ''did:web:example.com''
        \<lparr>contextUrl = JNull, document = example_document, documentUrl = JStr ''did:web:example.com''\<rparr>
        (emit (Fetch ''https://example.com/did.json'') initial_world))"
  by (simp add: loadUrlDocument_def initial_world_def urn_or_non_web_did_def startsWith_def
      fetch_json_def example_net_def stub_def served_def replace_colons_def Let_def)

lemma example_resolve:
  "fst (getPublicKeyFromDID (example_net unit) (JStr ''did:web:example.com#key-1'') False initial_world)
     = Inr (example_key ''#key-1'' ''AAAA'')"
  by (simp add: getPublicKeyFromDID_def getPublicKeyFromDID_try_def notify_def
      example_load hash_fragment_def example_document_def example_key_def Let_def)

lemma example_resolve_world:
  "snd (getPublicKeyFromDID (example_net unit) (JStr ''did:web:example.com#key-1'') False initial_world)
     = cache_set ''did:web:example.com''
        \<lparr>contextUrl = JNull, document = example_document, documentUrl = JStr ''did:web:example.com''\<rparr>
        (emit (Fetch ''https://example.com/did.json'') initial_world)"
  by (simp add: getPublicKeyFromDID_world notify_def example_load)

lemma example_resolve_pair:
  "getPublicKeyFromDID (example_net unit) (JStr ''did:web:example.com#key-1'') False initial_world
     = (Inr (example_key ''#key-1'' ''AAAA''),
        cache_set ''did:web:example.com''
          \<lparr>contextUrl = JNull, document = example_document, documentUrl = JStr ''did:web:example.com''\<rparr>
          (emit (Fetch ''https://example.com/did.json'') initial_world))"
  by (simp add: prod_eq_iff example_resolve example_resolve_world)

lemma example_try:
  "verifyCredentialSignature_try (example_net unit) example_credential False initial_world
     = verify_with_timeout (example_net unit) example_credential
         \<lparr>suite_key = VerificationKey (example_key ''#key-1'' ''AAAA''),
          suite_verificationMethod = JStr ''#key-1''\<rparr>
         (emit (NewSuite \<lparr>suite_key = VerificationKey (example_key ''#key-1'' ''AAAA''),
                          suite_verificationMethod = JStr ''#key-1''\<rparr>)
           (emit (NewKey (example_key ''#key-1'' ''AAAA''))
             (cache_set ''did:web:example.com''
               \<lparr>contextUrl = JNull, document = example_document,
                documentUrl = JStr ''did:web:example.com''\<rparr>
               (emit (Fetch ''https://example.com/did.json'') initial_world))))"
  by (simp add: verifyCredentialSignature_try_def example_credential_def notify_def
      example_resolve_pair Let_def)
    (simp add: example_key_def example_net_def stub_def notify_def Let_def)

lemma example_run:
  "suites (snd (snd (verifyCredentialSignature (example_net unit) example_credential False initial_world)))
     = [\<lparr>suite_key = VerificationKey (example_key ''#key-1'' ''AAAA''),
         suite_verificationMethod = JStr ''#key-1''\<rparr>]"
  "races (snd (snd (verifyCredentialSignature (example_net unit) example_credential False initial_world)))
     = [snd (race unit)]"
proof -
  have w: "snd (snd (verifyCredentialSignature (example_net unit) example_credential False initial_world))
           = snd (snd (verifyCredentialSignature_try (example_net unit) example_credential False initial_world))"
    by (rule verify_world)
  have e: "suites initial_world = []" "races initial_world = []"
    by (simp_all add: suites_def races_def initial_world_def)
  show "suites (snd (snd (verifyCredentialSignature (example_net unit) example_credential False initial_world)))
     = [\<lparr>suite_key = VerificationKey (example_key ''#key-1'' ''AAAA''),
         suite_verificationMethod = JStr ''#key-1''\<rparr>]"
    unfolding w example_try by (simp add: verify_with_timeout_quiet e)
  show "races (snd (snd (verifyCredentialSignature (example_net unit) example_credential False initial_world)))
     = [snd (race unit)]"
    unfolding w example_try by (simp add: verify_with_timeout_quiet e example_net_def stub_def)
qed

lemma example_entries:
  "spec_entries example_document = [example_key ''#key-1'' ''AAAA'', example_key ''#key-1'' ''BBBB'']"
  by (simp add: spec_entries_def collection_def elems_def example_document_def)

lemma example_first:
  "matches ''did:web:example.com#key-1'' (example_key ''#key-1'' material)"
  by (simp add: matches_def example_split example_key_def)

subsection \<open>The example credential in other surroundings\<close>

text \<open>
  The call for the example credential, without a callback and from the initial world,
  when the network serves the example document after \<open>d\<close> milliseconds and the
  constructors accept the key record: it reaches the race at time \<open>d\<close>.
\<close>

lemma example_load_after:
  assumes "fetch ext [] ''https://example.com/did.json''
             = Responds d (Response True ''OK'' (Parses 0 example_document))"
  shows "loadUrlDocument ext (JStr ''did:web:example.com'') initial_world =
     (Inr \<lparr>contextUrl = JNull, document = example_document, documentUrl = JStr ''did:web:example.com''\<rparr>,
      cache_set ''did:web:example.com''
        \<lparr>contextUrl = JNull, document = example_document, documentUrl = JStr ''did:web:example.com''\<rparr>
        (wait d (emit (Fetch ''https://example.com/did.json'') initial_world)))"
proof -
  have "trace initial_world = []" "documentCache initial_world ''did:web:example.com'' = None"
    by (simp_all add: initial_world_def)
  then show ?thesis using assms
    by (simp add: loadUrlDocument_def urn_or_non_web_did_def startsWith_def
        fetch_json_def replace_colons_def Let_def)
qed

lemma example_resolve_after:
  assumes "fetch ext [] ''https://example.com/did.json''
             = Responds d (Response True ''OK'' (Parses 0 example_document))"
  shows "getPublicKeyFromDID ext (JStr ''did:web:example.com#key-1'') False initial_world
     = (Inr (example_key ''#key-1'' ''AAAA''),
        cache_set ''did:web:example.com''
          \<lparr>contextUrl = JNull, document = example_document, documentUrl = JStr ''did:web:example.com''\<rparr>
          (wait d (emit (Fetch ''https://example.com/did.json'') initial_world)))"
  by (simp add: getPublicKeyFromDID_def getPublicKeyFromDID_try_def notify_def
      example_load_after [OF assms] hash_fragment_def example_document_def example_key_def Let_def)

lemma example_try_after:
  assumes "fetch ext [] ''https://example.com/did.json''
             = Responds d (Response True ''OK'' (Parses 0 example_document))"
    and "key_throws ext (example_key ''#key-1'' ''AAAA'') = None"
    and "suite_throws ext \<lparr>suite_key = VerificationKey (example_key ''#key-1'' ''AAAA''),
          suite_verificationMethod = JStr ''#key-1''\<rparr> = None"
  shows "verifyCredentialSignature_try ext example_credential False initial_world
     = verify_with_timeout ext example_credential
         \<lparr>suite_key = VerificationKey (example_key ''#key-1'' ''AAAA''),
          suite_verificationMethod = JStr ''#key-1''\<rparr>
         (emit (NewSuite \<lparr>suite_key = VerificationKey (example_key ''#key-1'' ''AAAA''),
                          suite_verificationMethod = JStr ''#key-1''\<rparr>)
           (emit (NewKey (example_key ''#key-1'' ''AAAA''))
             (cache_set ''did:web:example.com''
               \<lparr>contextUrl = JNull, document = example_document,
                documentUrl = JStr ''did:web:example.com''\<rparr>
               (wait d (emit (Fetch ''https://example.com/did.json'') initial_world)))))"
proof -
  have i: "get_prop (example_key ''#key-1'' ''AAAA'') ''id'' = Inr (JStr ''#key-1'')"
    "truthy (example_key ''#key-1'' ''AAAA'')"
    by (simp_all add: example_key_def)
  show ?thesis
    by (simp add: verifyCredentialSignature_try_def example_credential_def notify_def
        example_resolve_after [OF assms(1)] assms(2,3) i Let_def)
qed

lemma initial_observations:
  "suites initial_world = []" "races initial_world = []" "requests initial_world = []"
  "clock initial_world = 0"
  by (simp_all add: suites_def races_def requests_def initial_world_def)


text \<open>With the network that answers after five seconds it returns after fifteen.\<close>

lemma slow_try:
  "verifyCredentialSignature_try slow_net example_credential False initial_world
     = verify_with_timeout slow_net example_credential
         \<lparr>suite_key = VerificationKey (example_key ''#key-1'' ''AAAA''),
          suite_verificationMethod = JStr ''#key-1''\<rparr>
         (emit (NewSuite \<lparr>suite_key = VerificationKey (example_key ''#key-1'' ''AAAA''),
                          suite_verificationMethod = JStr ''#key-1''\<rparr>)
           (emit (NewKey (example_key ''#key-1'' ''AAAA''))
             (cache_set ''did:web:example.com''
               \<lparr>contextUrl = JNull, document = example_document,
                documentUrl = JStr ''did:web:example.com''\<rparr>
               (wait 5000 (emit (Fetch ''https://example.com/did.json'') initial_world)))))"
  by (rule example_try_after) (simp_all add: slow_net_def example_net_def stub_def served_def)

lemma slow_run:
  "fst (verifyCredentialSignature slow_net example_credential False initial_world)
     = Inr timeout_result"
  "clock (snd (snd (verifyCredentialSignature slow_net example_credential False initial_world)))
     = 15000"
proof -
  have stall: "fst (jsigs_verify slow_net example_credential s) = Stalls" for s
    by (simp add: slow_net_def example_net_def stub_def)
  have "fst (verifyCredentialSignature_try slow_net example_credential False initial_world)
      = Inr timeout_result"
    unfolding slow_try by (rule verify_with_timeout_stalled [OF stall])
  then show "fst (verifyCredentialSignature slow_net example_credential False initial_world)
     = Inr timeout_result"
    by (simp add: verifyCredentialSignature_def case_prod_beta split: sum.splits)
  show "clock (snd (snd (verifyCredentialSignature slow_net example_credential False initial_world)))
     = 15000"
    unfolding verify_world slow_try
    by (simp add: verify_with_timeout_quiet stall race_stalled initial_observations)
qed



text \<open>The example surroundings settle and throw nothing.\<close>

lemma stub_settles: "network_settles (stub table unit)"
  by (auto simp add: network_settles_def stub_def served_def split: option.splits)


section \<open>Claims\<close>




text \<open>
  Claim C2 at a credential whose \<^verbatim>\<open>proof.type\<close> is the JSON object \<^verbatim>\<open>{"toString": "x"}\<close>.
  The type differs from \<^verbatim>\<open>Ed25519Signature2018\<close>, but making the text of the
  unsupported-type message throws a TypeError, and the call returns the failure made of
  this TypeError, which does not speak of the proof type. Nothing was requested from the
  network.
\<close>

theorem unsupported_type_message_throws:
  "verifyCredentialSignature ext
      (JObj [(''proof'', JObj [(''type'', JObj [(''toString'', JStr ''x'')])])]) cb w
     = (Inr (JObj [(''verified'', JBool False),
                   (''error'', JStr ''Cannot convert object to primitive value'')]),
        JObj [(''proof'', JObj [(''type'', JObj [(''toString'', JStr ''x'')])])],
        notify cb START ''Starting verification'' w)
   \<and> JObj [(''verified'', JBool False),
           (''error'', JStr ''Cannot convert object to primitive value'')]
       \<noteq> unsupported_type_result type_text
   \<and> requests (notify cb START ''Starting verification'' w) = requests w"
  by (simp add: verifyCredentialSignature_def verifyCredentialSignature_try_def
      cannot_convert_def catch_error_def caught_value_def message_includes_def
      generic_result_def unsupported_type_result_def)

text \<open>
  Claim C3, as the resolver has it. Take an identifier whose not-found message does not
  itself contain the words \<^verbatim>\<open>Failed to fetch\<close>. Then \<^verbatim>\<open>getPublicKeyFromDID\<close> returns \<^verbatim>\<open>null\<close>
  exactly when the loaded owning document is falsy or has a member \<^verbatim>\<open>@id\<close> equal to the
  owning identifier, whatever other members it has. A document that passes this guard,
  with no \<^verbatim>\<open>null\<close> entry before the first match, gives the first matching key record, or
  the missing-verification-method error naming the identifier when nothing matches.
\<close>

theorem null_exactly_when_guard_rejects:
  assumes loaded: "fst (loadUrlDocument ext (JStr (hd (split_hash vm)))
             (notify cb RESOLVE_DID (''Resolving verification method: '' @ vm) w)) = Inr response"
    and msg: "\<not> str_includes (err_message (not_found vm)) ''Failed to fetch''"
  shows "(fst (getPublicKeyFromDID ext (JStr vm) cb w) = Inr JNull)
           = taken_as_unreachable (hd (split_hash vm)) (document response)
       \<and> (\<not> taken_as_unreachable (hd (split_hash vm)) (document response)
          \<and> (\<forall>x \<in> set (takeWhile (\<lambda>m. \<not> matches vm m) (spec_entries (document response))).
                x \<noteq> JNull \<and> x \<noteq> JUndefined)
          \<longrightarrow> fst (getPublicKeyFromDID ext (JStr vm) cb w)
                = (case spec_first_match vm (document response) of
                     Some m \<Rightarrow> Inr m
                   | None \<Rightarrow> Inl (not_found vm)))"
proof (intro conjI impI)
  show "(fst (getPublicKeyFromDID ext (JStr vm) cb w) = Inr JNull)
          = taken_as_unreachable (hd (split_hash vm)) (document response)"
    using resolve_rejected [OF loaded] resolve_accepted_never_null [OF loaded _ msg] by blast
next
  assume a: "\<not> taken_as_unreachable (hd (split_hash vm)) (document response)
          \<and> (\<forall>x \<in> set (takeWhile (\<lambda>m. \<not> matches vm m) (spec_entries (document response))).
                x \<noteq> JNull \<and> x \<noteq> JUndefined)"
  then have t: "fst (getPublicKeyFromDID_try ext (JStr vm) cb w) =
           (case spec_first_match vm (document response) of
              Some m \<Rightarrow> Inr m
            | None \<Rightarrow> Inl (not_found vm))"
    using resolve_accepted [OF loaded] by blast
  show "fst (getPublicKeyFromDID ext (JStr vm) cb w)
          = (case spec_first_match vm (document response) of
               Some m \<Rightarrow> Inr m
             | None \<Rightarrow> Inl (not_found vm))"
    using t msg
    by (cases "getPublicKeyFromDID_try ext (JStr vm) cb w")
      (auto simp add: getPublicKeyFromDID_def not_found_def split: option.splits)
qed

text \<open>
  Claim C3 at \<^verbatim>\<open>did:web:example.com#key-1\<close>: the example document passes the guard and the
  result is not \<^verbatim>\<open>null\<close>; the document with \<^verbatim>\<open>@id\<close> does not pass and the result is \<^verbatim>\<open>null\<close>.
\<close>

theorem null_exactly_witness:
  "\<not> str_includes (err_message (not_found ''did:web:example.com#key-1'')) ''Failed to fetch''
   \<and> \<not> taken_as_unreachable ''did:web:example.com'' example_document
   \<and> spec_first_match ''did:web:example.com#key-1'' example_document
       = Some (example_key ''#key-1'' ''AAAA'')
   \<and> fst (getPublicKeyFromDID (example_net Stalls) (JStr ''did:web:example.com#key-1'') False
            initial_world) \<noteq> Inr JNull
   \<and> fst (getPublicKeyFromDID (example_net Stalls) (JStr ''did:web:example.com#key-1'') False
            initial_world) = Inr (example_key ''#key-1'' ''AAAA'')
   \<and> taken_as_unreachable ''did:web:example.com'' jsonld_document
   \<and> fst (getPublicKeyFromDID (stub [(''https://example.com/did.json'', jsonld_document)] Stalls)
            (JStr ''did:web:example.com#key-1'') False initial_world) = Inr JNull"
proof -
  have a: "\<not> taken_as_unreachable ''did:web:example.com'' example_document"
    by (simp add: taken_as_unreachable_def example_document_def)
  have b: "taken_as_unreachable ''did:web:example.com'' jsonld_document"
    by (simp add: taken_as_unreachable_def jsonld_document_def)
  have n: "\<forall>x \<in> set (takeWhile (\<lambda>m. \<not> matches ''did:web:example.com#key-1'' m)
                      (spec_entries example_document)). x \<noteq> JNull \<and> x \<noteq> JUndefined"
    by (simp add: example_entries example_first)
  have f: "spec_first_match ''did:web:example.com#key-1'' example_document
             = Some (example_key ''#key-1'' ''AAAA'')"
    by (simp add: spec_first_match_def example_entries example_first)
  from null_exactly_when_guard_rejects [OF served_loaded [of example_document Stalls] example_message]
    null_exactly_when_guard_rejects [OF served_loaded [of jsonld_document Stalls] example_message]
  show ?thesis using a b n f example_message
    by (auto simp add: example_net_def example_split example_key_def)
qed

text \<open>
  Claim C3 with the placeholder read as a document whose only member is \<^verbatim>\<open>id\<close> does not
  hold in either direction. For the document whose only member is \<^verbatim>\<open>id\<close>, equal to the
  owning identifier, the resolver throws the missing-verification-method error and does
  not return \<^verbatim>\<open>null\<close>. For a document with \<^verbatim>\<open>@id\<close> and a \<^verbatim>\<open>verificationMethod\<close> collection
  that holds the requested key, which is not the placeholder, it returns \<^verbatim>\<open>null\<close>.
\<close>

theorem placeholder_field_counterexample:
  "fst (getPublicKeyFromDID (stub [(''https://example.com/did.json'', only_id_document)] Stalls)
          (JStr ''did:web:example.com#key-1'') False initial_world)
     = Inl (JsError ''Error''
         ''Verification method did:web:example.com#key-1 not found in DID document'')
   \<and> fst (loadUrlDocument
            (stub [(''https://example.com/did.json'', jsonld_document)] Stalls)
            (JStr ''did:web:example.com'') initial_world)
     = Inr \<lparr>contextUrl = JNull,
            document = JObj [(''@id'', JStr ''did:web:example.com''),
                             (''verificationMethod'',
                              JArr [example_key ''did:web:example.com#key-1'' ''AAAA''])],
            documentUrl = JStr ''did:web:example.com''\<rparr>
   \<and> fst (getPublicKeyFromDID
            (stub [(''https://example.com/did.json'', jsonld_document)] Stalls)
            (JStr ''did:web:example.com#key-1'') False initial_world)
     = Inr JNull"
proof -
  have one: "fst (getPublicKeyFromDID
      (stub [(''https://example.com/did.json'', only_id_document)] Stalls)
      (JStr ''did:web:example.com#key-1'') False initial_world)
     = Inl (not_found ''did:web:example.com#key-1'')"
  proof -
    have accepted: "\<not> taken_as_unreachable (hd (split_hash ''did:web:example.com#key-1''))
        (document \<lparr>contextUrl = JNull, document = only_id_document,
                   documentUrl = JStr ''did:web:example.com''\<rparr>)"
      by (simp add: example_split taken_as_unreachable_def only_id_document_def)
    have entries: "spec_entries only_id_document = []"
      by (simp add: spec_entries_def collection_def elems_def only_id_document_def)
    have "fst (getPublicKeyFromDID_try
        (stub [(''https://example.com/did.json'', only_id_document)] Stalls)
        (JStr ''did:web:example.com#key-1'') False initial_world)
       = Inl (not_found ''did:web:example.com#key-1'')"
      using resolve_accepted [OF served_loaded [of only_id_document Stalls] accepted]
      by (simp add: entries spec_first_match_def)
    then show ?thesis using example_message
      by (cases "getPublicKeyFromDID_try
            (stub [(''https://example.com/did.json'', only_id_document)] Stalls)
            (JStr ''did:web:example.com#key-1'') False initial_world")
        (simp add: getPublicKeyFromDID_def not_found_def)
  qed
  have two: "fst (getPublicKeyFromDID
      (stub [(''https://example.com/did.json'', jsonld_document)] Stalls)
      (JStr ''did:web:example.com#key-1'') False initial_world) = Inr JNull"
    by (rule resolve_rejected [OF served_loaded [of jsonld_document Stalls]])
      (simp add: example_split taken_as_unreachable_def jsonld_document_def)
  show ?thesis using one two served_load [of jsonld_document Stalls]
    by (simp add: not_found_def jsonld_document_def)
qed

text \<open>
  Claim C4, with the member under its name in the code. In every world the process can be
  in, \<^verbatim>\<open>loadUrlDocument\<close> on a string that starts with \<^verbatim>\<open>urn:\<close>, or with \<^verbatim>\<open>did:\<close> but not with
  \<^verbatim>\<open>did:web:\<close>, returns the triple whose document is the object with the single member
  \<^verbatim>\<open>@id\<close>, equal to the string, and makes no network request.
\<close>

theorem placeholder_without_network:
  assumes "reachable ext w" and "urn_or_non_web_did i"
  shows "fst (loadUrlDocument ext (JStr i) w)
           = Inr \<lparr>contextUrl = JNull, document = JObj [(''@id'', JStr i)], documentUrl = JStr i\<rparr>
         \<and> requests (snd (loadUrlDocument ext (JStr i) w)) = requests w"
proof (cases "documentCache w i")
  case None
  then show ?thesis using assms(2) by (simp add: load_miss_placeholder)
next
  case (Some d)
  then have "d = \<lparr>contextUrl = JNull, document = JObj [(''@id'', JStr i)], documentUrl = JStr i\<rparr>"
    using reachable_loader_cache [OF assms(1)] assms(2) by (simp add: loader_cache_def)
  then show ?thesis using Some by (simp add: load_hit)
qed

text \<open>Claim C4 at \<^verbatim>\<open>did:key:z6Mk\<close> in the initial world.\<close>

theorem placeholder_witness:
  "reachable (stub [] Stalls) initial_world
   \<and> urn_or_non_web_did ''did:key:z6Mk''
   \<and> fst (loadUrlDocument (stub [] Stalls) (JStr ''did:key:z6Mk'') initial_world)
       = Inr \<lparr>contextUrl = JNull, document = JObj [(''@id'', JStr ''did:key:z6Mk'')],
              documentUrl = JStr ''did:key:z6Mk''\<rparr>
   \<and> requests (snd (loadUrlDocument (stub [] Stalls) (JStr ''did:key:z6Mk'') initial_world)) = []"
proof -
  have r: "reachable (stub [] Stalls) initial_world" by (rule reachable.start)
  have u: "urn_or_non_web_did ''did:key:z6Mk''"
    by (simp add: urn_or_non_web_did_def startsWith_def)
  from placeholder_without_network [OF r u] show ?thesis using r u
    by (simp add: requests_def initial_world_def)
qed

text \<open>
  Claim C4 with a member named \<^verbatim>\<open>id\<close> does not hold: the document loaded for
  \<^verbatim>\<open>urn:uuid:1\<close> has the single member \<^verbatim>\<open>@id\<close>, it is not the object with the member \<^verbatim>\<open>id\<close>,
  and reading its \<^verbatim>\<open>id\<close> gives \<^verbatim>\<open>undefined\<close>.
\<close>

theorem placeholder_member_counterexample:
  "fst (loadUrlDocument (stub [] Stalls) (JStr ''urn:uuid:1'') initial_world)
     = Inr \<lparr>contextUrl = JNull, document = JObj [(''@id'', JStr ''urn:uuid:1'')],
            documentUrl = JStr ''urn:uuid:1''\<rparr>
   \<and> JObj [(''@id'', JStr ''urn:uuid:1'')] \<noteq> JObj [(''id'', JStr ''urn:uuid:1'')]
   \<and> get_prop (JObj [(''@id'', JStr ''urn:uuid:1'')]) ''id'' = Inr JUndefined"
  by (simp add: loadUrlDocument_def initial_world_def urn_or_non_web_did_def startsWith_def Let_def)

text \<open>
  Claim C5, for the documents that the resolver searches. When the loaded owning document
  passes the guard (it is truthy and its \<^verbatim>\<open>@id\<close> is not the owning identifier) and no
  entry before the first match is \<^verbatim>\<open>null\<close>, \<^verbatim>\<open>getPublicKeyFromDID\<close> returns the first entry,
  in the order \<^verbatim>\<open>verificationMethod\<close>, \<^verbatim>\<open>authentication\<close>, \<^verbatim>\<open>assertionMethod\<close>, \<^verbatim>\<open>publicKey\<close>,
  that matches the identifier in full or by its fragment.
\<close>

theorem first_match_in_declared_order:
  assumes loaded: "fst (loadUrlDocument ext (JStr (hd (split_hash vm)))
             (notify cb RESOLVE_DID (''Resolving verification method: '' @ vm) w)) = Inr response"
    and accepted: "\<not> taken_as_unreachable (hd (split_hash vm)) (document response)"
    and nonnull: "\<forall>x \<in> set (takeWhile (\<lambda>m. \<not> matches vm m) (spec_entries (document response))).
                    x \<noteq> JNull \<and> x \<noteq> JUndefined"
    and found: "spec_first_match vm (document response) = Some m"
  shows "fst (getPublicKeyFromDID ext (JStr vm) cb w) = Inr m"
  using resolve_accepted [OF loaded accepted nonnull] found
  by (cases "getPublicKeyFromDID_try ext (JStr vm) cb w") (simp add: getPublicKeyFromDID_def)

text \<open>
  Claim C5 at the example document, where \<^verbatim>\<open>#key-1\<close> is in \<^verbatim>\<open>verificationMethod\<close> and in
  \<^verbatim>\<open>authentication\<close> with different key material: the \<^verbatim>\<open>verificationMethod\<close> entry is
  returned.
\<close>

theorem first_match_witness:
  "\<not> taken_as_unreachable ''did:web:example.com'' example_document
   \<and> spec_first_match ''did:web:example.com#key-1'' example_document
       = Some (example_key ''#key-1'' ''AAAA'')
   \<and> example_key ''#key-1'' ''AAAA'' \<noteq> example_key ''#key-1'' ''BBBB''
   \<and> fst (getPublicKeyFromDID (example_net Stalls) (JStr ''did:web:example.com#key-1'') False
            initial_world) = Inr (example_key ''#key-1'' ''AAAA'')"
proof -
  have accepted: "\<not> taken_as_unreachable (hd (split_hash ''did:web:example.com#key-1''))
      (document \<lparr>contextUrl = JNull, document = example_document,
                 documentUrl = JStr ''did:web:example.com''\<rparr>)"
    by (simp add: example_split taken_as_unreachable_def example_document_def)
  have nonnull: "\<forall>x \<in> set (takeWhile (\<lambda>m. \<not> matches ''did:web:example.com#key-1'' m)
      (spec_entries (document \<lparr>contextUrl = JNull, document = example_document,
                 documentUrl = JStr ''did:web:example.com''\<rparr>))). x \<noteq> JNull \<and> x \<noteq> JUndefined"
    by (simp add: example_entries example_first)
  have found: "spec_first_match ''did:web:example.com#key-1''
      (document \<lparr>contextUrl = JNull, document = example_document,
                 documentUrl = JStr ''did:web:example.com''\<rparr>)
      = Some (example_key ''#key-1'' ''AAAA'')"
    by (simp add: spec_first_match_def example_entries example_first)
  from first_match_in_declared_order
    [OF served_loaded [of example_document Stalls] accepted nonnull found]
  show ?thesis using accepted found
    by (simp add: example_net_def example_split example_key_def)
qed

text \<open>
  Claim C5 does not hold for every owning document: this one has \<^verbatim>\<open>#key-1\<close> in both
  collections, so that there is a first match, but it names itself with \<^verbatim>\<open>@id\<close>, and the
  resolver returns \<^verbatim>\<open>null\<close>.
\<close>

theorem declared_order_counterexample:
  "spec_first_match ''did:web:example.com#key-1'' jsonld_two_collections
     = Some (example_key ''#key-1'' ''AAAA'')
   \<and> fst (getPublicKeyFromDID
            (stub [(''https://example.com/did.json'', jsonld_two_collections)] Stalls)
            (JStr ''did:web:example.com#key-1'') False initial_world)
     = Inr JNull"
proof -
  have "fst (getPublicKeyFromDID
      (stub [(''https://example.com/did.json'', jsonld_two_collections)] Stalls)
      (JStr ''did:web:example.com#key-1'') False initial_world) = Inr JNull"
    by (rule resolve_rejected [OF served_loaded [of jsonld_two_collections Stalls]])
      (simp add: example_split taken_as_unreachable_def jsonld_two_collections_def)
  moreover have "spec_first_match ''did:web:example.com#key-1'' jsonld_two_collections
     = Some (example_key ''#key-1'' ''AAAA'')"
    by (simp add: spec_first_match_def spec_entries_def collection_def elems_def
        jsonld_two_collections_def example_first)
  ultimately show ?thesis by simp
qed

text \<open>
  Claim C6. For every identifier string, when a call of \<^verbatim>\<open>loadUrlDocument\<close> has returned, a
  second call right after it returns the same value and leaves the world as the first
  call left it: no network request, the cache untouched. The value is a document, not an
  error, and it is the cache's entry for the identifier. This holds in every world and
  for every network, also one that would answer differently the second time. The first
  call returns whenever the network settles its request; a call that waits for ever for
  the network has returned nothing and written nothing.
\<close>

theorem load_twice_same_document_from_cache:
  "(case loadUrlDocument ext (JStr i) w of
      (r, w1) \<Rightarrow> r = Inl NeverSettles
                 \<or> (loadUrlDocument ext (JStr i) w1 = (r, w1)
                 \<and> requests (snd (loadUrlDocument ext (JStr i) w1)) = requests w1
                 \<and> (\<exists>d. r = Inr d \<and> documentCache w1 i = Some d)))
   \<and> (network_settles ext \<longrightarrow> fst (loadUrlDocument ext (JStr i) w) \<noteq> Inl NeverSettles)"
proof (rule conjI)
  show "case loadUrlDocument ext (JStr i) w of
      (r, w1) \<Rightarrow> r = Inl NeverSettles
                 \<or> (loadUrlDocument ext (JStr i) w1 = (r, w1)
                 \<and> requests (snd (loadUrlDocument ext (JStr i) w1)) = requests w1
                 \<and> (\<exists>d. r = Inr d \<and> documentCache w1 i = Some d))"
  proof (cases "documentCache w i")
    case None
    from load_miss [OF None, of ext]
    consider (pending) w1 where "loadUrlDocument ext (JStr i) w = (Inl NeverSettles, w1)"
      | (returned) d w0 where "loadUrlDocument ext (JStr i) w = (Inr d, cache_set i d w0)"
      by blast
    then show ?thesis
    proof cases
      case pending
      then show ?thesis by simp
    next
      case returned
      then show ?thesis by (simp add: load_hit)
    qed
  next
    case (Some d)
    then show ?thesis by (simp add: load_hit)
  qed
  show "network_settles ext \<longrightarrow> fst (loadUrlDocument ext (JStr i) w) \<noteq> Inl NeverSettles"
    using load_settles [of ext i w] by blast
qed

text \<open>
  Claim C6 at an address that the network refuses: the first call returns the fallback
  document after one request, and the second call returns the same from the cache, with
  no request.
\<close>

theorem load_twice_witness:
  "fst (loadUrlDocument (stub [] Stalls) (JStr ''https://example.com/context'') initial_world)
     = Inr \<lparr>contextUrl = JNull, document = JObj [(''@context'', FALLBACK)],
            documentUrl = JStr ''https://example.com/context''\<rparr>
   \<and> requests (snd (loadUrlDocument (stub [] Stalls) (JStr ''https://example.com/context'')
        initial_world)) = [''https://example.com/context'']
   \<and> loadUrlDocument (stub [] Stalls) (JStr ''https://example.com/context'')
        (snd (loadUrlDocument (stub [] Stalls) (JStr ''https://example.com/context'') initial_world))
     = (Inr \<lparr>contextUrl = JNull, document = JObj [(''@context'', FALLBACK)],
              documentUrl = JStr ''https://example.com/context''\<rparr>,
        snd (loadUrlDocument (stub [] Stalls) (JStr ''https://example.com/context'') initial_world))"
proof -
  let ?L = "loadUrlDocument (stub [] Stalls) (JStr ''https://example.com/context'') initial_world"
  have first: "?L =
      (Inr \<lparr>contextUrl = JNull, document = JObj [(''@context'', FALLBACK)],
             documentUrl = JStr ''https://example.com/context''\<rparr>,
       cache_set ''https://example.com/context''
         \<lparr>contextUrl = JNull, document = JObj [(''@context'', FALLBACK)],
          documentUrl = JStr ''https://example.com/context''\<rparr>
         (emit (Fetch ''https://example.com/context'') initial_world))"
    by (simp add: loadUrlDocument_def initial_world_def urn_or_non_web_did_def startsWith_def
        fetch_json_def stub_def served_def thrown_def Let_def)
  have settles: "network_settles (stub [] Stalls)" by (rule stub_settles)
  from load_twice_same_document_from_cache
    [of "stub [] Stalls" "''https://example.com/context''" initial_world]
  show ?thesis using settles by (simp add: first initial_observations)
qed

text \<open>
  Claim C7. When a call of \<^verbatim>\<open>verifyCredentialSignature\<close> has constructed a suite, it has
  constructed one, from the key record that \<^verbatim>\<open>getPublicKeyFromDID\<close> returned for
  \<^verbatim>\<open>proof.verificationMethod\<close>: the key is made of this record and the suite's
  \<^verbatim>\<open>verificationMethod\<close> is the record's \<^verbatim>\<open>id\<close>.
\<close>

theorem suite_bound_to_key_record_id:
  assumes run: "verifyCredentialSignature ext credential cb w = (r, c', w')"
    and built: "suites w' \<noteq> suites w"
  shows "\<exists>pb vm pk i.
           get_prop credential ''proof'' = Inr pb
         \<and> get_prop pb ''verificationMethod'' = Inr vm
         \<and> fst (getPublicKeyFromDID ext vm cb
                 (notify cb CHECK_PROOF ''Checking proof format: Ed25519Signature2018''
                   (notify cb START ''Starting verification'' w))) = Inr pk
         \<and> get_prop pk ''id'' = Inr i
         \<and> suites w' = suites w @ [\<lparr>suite_key = VerificationKey pk, suite_verificationMethod = i\<rparr>]"
proof -
  have w': "w' = snd (snd (verifyCredentialSignature_try ext credential cb w))"
    using run verify_world(1) [of ext credential cb w] by simp
  show ?thesis using try_stages [of ext credential cb w] built unfolding w' by blast
qed

text \<open>
  Claim C7 at the example credential: the caller's identifier is
  \<^verbatim>\<open>did:web:example.com#key-1\<close>, the record's \<^verbatim>\<open>id\<close> is \<^verbatim>\<open>#key-1\<close>, and the suite is bound
  to \<^verbatim>\<open>#key-1\<close>.
\<close>

theorem suite_bound_witness:
  "suites (snd (snd (verifyCredentialSignature (example_net Stalls) example_credential False initial_world)))
     \<noteq> suites initial_world
   \<and> (\<exists>pk. fst (getPublicKeyFromDID (example_net Stalls) (JStr ''did:web:example.com#key-1'') False
               initial_world) = Inr pk
          \<and> get_prop pk ''id'' = Inr (JStr ''#key-1'')
          \<and> suites (snd (snd (verifyCredentialSignature (example_net Stalls) example_credential False
                 initial_world)))
              = [\<lparr>suite_key = VerificationKey pk, suite_verificationMethod = JStr ''#key-1''\<rparr>])"
proof -
  let ?X = "verifyCredentialSignature (example_net Stalls) example_credential False initial_world"
  have e: "suites initial_world = []"
    by (simp add: suites_def initial_world_def)
  have built: "suites (snd (snd ?X)) \<noteq> suites initial_world"
    by (simp add: example_run e)
  have run: "?X = (fst ?X, fst (snd ?X), snd (snd ?X))" by simp
  from suite_bound_to_key_record_id [OF run built]
  show ?thesis using built
    by (auto simp add: example_credential_def notify_def e example_resolve example_key_def)
qed

text \<open>
  Claim C8, from the start of the race. When the verification of the credential never
  settles and the call reaches the race, the timer wins it: the call returns the timeout
  result, 10000 milliseconds after the resolver returned the key. The timer is made after
  the key has been resolved, so the time that the resolver took is not under its bound.
\<close>

theorem timeout_ten_seconds_after_key_resolution:
  assumes stall: "\<forall>s. fst (jsigs_verify ext credential s) = Stalls"
    and run: "verifyCredentialSignature ext credential cb w = (out, c', w')"
    and reached: "races w' \<noteq> races w"
  shows "out = Inr timeout_result \<and> races w' = races w @ [10000]
       \<and> (\<exists>pb vm. get_prop credential ''proof'' = Inr pb
              \<and> get_prop pb ''verificationMethod'' = Inr vm
              \<and> clock w' = clock (snd (getPublicKeyFromDID ext vm cb
                     (notify cb CHECK_PROOF ''Checking proof format: Ed25519Signature2018''
                       (notify cb START ''Starting verification'' w)))) + 10000
              \<and> clock w \<le> clock (snd (getPublicKeyFromDID ext vm cb
                     (notify cb CHECK_PROOF ''Checking proof format: Ed25519Signature2018''
                       (notify cb START ''Starting verification'' w)))))"
proof -
  have w': "w' = snd (snd (verifyCredentialSignature_try ext credential cb w))"
    using run verify_world(1) [of ext credential cb w] by simp
  have rc: "snd (race (fst (jsigs_verify ext credential s))) = 10000" for s
    using stall [rule_format, of s] by (simp add: race_stalled)
  from try_stages [of ext credential cb w] reached obtain pb vm s w7
    where pb: "get_prop credential ''proof'' = Inr pb"
      and vm: "get_prop pb ''verificationMethod'' = Inr vm"
      and t: "verifyCredentialSignature_try ext credential cb w
                = verify_with_timeout ext credential s w7"
      and r7: "races w7 = races w"
      and c7: "clock w7 = clock (snd (getPublicKeyFromDID ext vm cb
                     (notify cb CHECK_PROOF ''Checking proof format: Ed25519Signature2018''
                       (notify cb START ''Starting verification'' w))))"
    unfolding w' by blast
  have "fst (verifyCredentialSignature_try ext credential cb w) = Inr timeout_result"
    unfolding t using stall by (simp add: verify_with_timeout_stalled)
  then have "out = Inr timeout_result"
    using run by (auto simp add: verifyCredentialSignature_def split: prod.splits)
  moreover have "races w' = races w @ [10000]"
    unfolding w' t by (simp add: verify_with_timeout_quiet r7 rc)
  moreover have "clock w' = clock (snd (getPublicKeyFromDID ext vm cb
                     (notify cb CHECK_PROOF ''Checking proof format: Ed25519Signature2018''
                       (notify cb START ''Starting verification'' w)))) + 10000"
    unfolding w' t by (simp add: verify_with_timeout_quiet c7 rc)
  moreover have "clock w \<le> clock (snd (getPublicKeyFromDID ext vm cb
                     (notify cb CHECK_PROOF ''Checking proof format: Ed25519Signature2018''
                       (notify cb START ''Starting verification'' w))))"
    using resolve_clock [of "notify cb CHECK_PROOF ''Checking proof format: Ed25519Signature2018''
                       (notify cb START ''Starting verification'' w)" ext vm cb]
    by simp
  ultimately show ?thesis using pb vm by blast
qed

text \<open>
  Claim C8 at the example credential with a verification that stalls and a network that
  answers at once: the call returns the timeout result at 10000 milliseconds.
\<close>

theorem timeout_after_resolution_witness:
  "races (snd (snd (verifyCredentialSignature (example_net Stalls) example_credential False initial_world)))
     \<noteq> races initial_world
   \<and> fst (verifyCredentialSignature (example_net Stalls) example_credential False initial_world)
       = Inr timeout_result
   \<and> races (snd (snd (verifyCredentialSignature (example_net Stalls) example_credential False initial_world)))
       = [10000]
   \<and> clock (snd (snd (verifyCredentialSignature (example_net Stalls) example_credential False initial_world)))
       = 10000"
proof -
  let ?X = "verifyCredentialSignature (example_net Stalls) example_credential False initial_world"
  have stall: "\<forall>s. fst (jsigs_verify (example_net Stalls) example_credential s) = Stalls"
    by (simp add: example_net_def stub_def)
  have reached: "races (snd (snd ?X)) \<noteq> races initial_world"
    by (simp add: example_run initial_observations)
  have run: "?X = (fst ?X, fst (snd ?X), snd (snd ?X))" by simp
  have resolved: "clock (snd (getPublicKeyFromDID (example_net Stalls)
      (JStr ''did:web:example.com#key-1'') False initial_world)) = 0"
    by (simp add: example_resolve_world initial_observations)
  from timeout_ten_seconds_after_key_resolution [OF stall run reached]
  show ?thesis using reached
    by (auto simp add: initial_observations example_credential_def notify_def resolved)
qed

text \<open>
  Claim C8 does not hold from the start of the call. With a verification that stalls and
  a network that serves the document of the signer after five seconds, the call for the
  example credential, made at time 0, returns the timeout result at 15000 milliseconds:
  the caller has waited longer than the ten seconds of the timer.
\<close>

theorem timeout_bound_counterexample:
  "fst (jsigs_verify slow_net example_credential
          \<lparr>suite_key = VerificationKey (example_key ''#key-1'' ''AAAA''),
           suite_verificationMethod = JStr ''#key-1''\<rparr>) = Stalls
   \<and> clock initial_world = 0
   \<and> fst (verifyCredentialSignature slow_net example_credential False initial_world)
       = Inr timeout_result
   \<and> clock (snd (snd (verifyCredentialSignature slow_net example_credential False initial_world)))
       = 15000
   \<and> \<not> clock (snd (snd (verifyCredentialSignature slow_net example_credential False initial_world)))
       \<le> clock initial_world + 10000"
proof -
  have "fst (jsigs_verify slow_net example_credential
          \<lparr>suite_key = VerificationKey (example_key ''#key-1'' ''AAAA''),
           suite_verificationMethod = JStr ''#key-1''\<rparr>) = Stalls"
    by (simp add: slow_net_def example_net_def stub_def)
  then show ?thesis by (simp add: slow_run initial_observations)
qed




text \<open>
  Claim C10. A \<^verbatim>\<open>null\<close> or \<^verbatim>\<open>undefined\<close> credential does not make
  \<^verbatim>\<open>verifyCredentialSignature\<close> throw: the call returns the result it returns for a credential
  without \<^verbatim>\<open>proof\<close> (here the empty object), which has \<^verbatim>\<open>verified\<close> false and the
  missing-proof message, and it leaves the world as it was.
\<close>

theorem null_credential_is_missing_proof:
  "verifyCredentialSignature ext JNull cb w = (Inr missing_proof_result, JNull, w)
   \<and> verifyCredentialSignature ext JUndefined cb w = (Inr missing_proof_result, JUndefined, w)
   \<and> verifyCredentialSignature ext (JObj []) cb w = (Inr missing_proof_result, JObj [], w)
   \<and> get_prop missing_proof_result ''verified'' = Inr (JBool False)
   \<and> get_prop missing_proof_result ''error''
       = Inr (JStr ''Invalid credential structure: missing proof'')"
  by (simp add: verifyCredentialSignature_def verifyCredentialSignature_try_def
      missing_proof_result_def)

end
